theory Spec2Isabelle
  imports Complex_Main "HOL-Library.AList" "HOL-Library.Char_ord" "HOL-Library.List_Lexorder"
    "HOL-Library.Word"
begin

section \<open>Data model\<close>

text \<open>
  The records follow \<^verbatim>\<open>VanetBlock.hpp\<close> and \<^verbatim>\<open>VanetBlockchainApp.hpp\<close>.
  A stored C++ \<^verbatim>\<open>double\<close> is a \<^typ>\<open>real\<close>: the finite doubles are real numbers, and the
  ledger holds no infinity and no NaN. The arithmetic on them is exact in the first
  sections; the section on double arithmetic gives the same functions with the rounding of
  every operation written out, for what depends on it. An \<^verbatim>\<open>ns3::Time\<close> is its integer time
  step, and the unsigned counters are natural numbers.
  Several structs of the source share a field name (\<^verbatim>\<open>timestamp\<close>, \<^verbatim>\<open>eventType\<close>,
  \<^verbatim>\<open>proposerId\<close>); the second use of a name carries the struct as a prefix.
\<close>

datatype TransactionType = REGISTRATION | EVENT_DECISION | REPUTATION_UPDATE

record Transaction =
  tx_type :: TransactionType
  tx_timestamp :: nat
  vehicleId_reg :: string
  publicKey :: string
  initialReputation :: real
  eventId_dec :: string
  eventType :: string
  eventLocation :: string
  eventTimestamp :: nat
  eventReports :: "(string \<times> string) list"
  eventVerdict :: string
  eventCredibility :: real
  vehicleId_rep :: string
  eventId_rep :: string
  oldReputation :: real
  newReputation :: real

text \<open>The default member initialisers of \<^verbatim>\<open>struct Transaction\<close>; the type is the one field the
  source leaves for its caller to set.\<close>

definition Transaction_default :: "TransactionType \<Rightarrow> Transaction" where
  "Transaction_default t =
     \<lparr> tx_type = t, tx_timestamp = 0, vehicleId_reg = [], publicKey = [],
       initialReputation = 0.5, eventId_dec = [], eventType = [], eventLocation = [],
       eventTimestamp = 0, eventReports = [], eventVerdict = [], eventCredibility = 0,
       vehicleId_rep = [], eventId_rep = [], oldReputation = 0, newReputation = 0 \<rparr>"

record VanetBlock =
  height :: nat
  block_timestamp :: nat
  previousHash :: string
  blockHash :: string
  proposerId :: string
  transactions :: "Transaction list"
  consensusSignatures :: "(string \<times> string) list"

datatype NodeType = RSU_VALIDATOR | VEHICLE_CLIENT

record EventReport =
  vehicleId :: string
  reportedEventType :: string
  originalEventType :: string
  location :: "real \<times> real \<times> real"
  report_timestamp :: int
  signature :: string
  seqNum :: nat
  receivedTime :: int

record EventCluster =
  eventId :: string
  cluster_eventType :: string
  centerLocation :: "real \<times> real \<times> real"
  centerTime :: int
  reports :: "EventReport list"
  creationTime :: int
  decisionMade :: bool

datatype PbftPhase =
  IDLE | PRE_PREPARE_SENT | PRE_PREPARE_RECEIVED | PREPARE_SENT | COMMIT_SENT | COMMITTED

text \<open>The vote tables are \<^verbatim>\<open>unordered_map\<close>s keyed by voter; they are association lists
  with distinct keys here, so that their size is the number of distinct voters.\<close>

record PbftBlockState =
  phase :: PbftPhase
  block :: VanetBlock
  view :: nat
  state_seqNum :: nat
  state_proposerId :: string
  prepareVotes :: "(string \<times> string) list"
  commitVotes :: "(string \<times> string) list"

text \<open>
  The node. \<^verbatim>\<open>m_activeClusters\<close> is an \<^verbatim>\<open>unordered_map\<close> that the source iterates
  over; it is an association list whose order stands for the iteration order.
  \<open>forwarded\<close> collects, in order, the transactions handed to
  \<^verbatim>\<open>ForwardTransactionToLeader\<close>, and \<open>scheduledChecks\<close> the cluster ids for
  which \<^verbatim>\<open>ScheduleClusterCheck\<close> has set a timer.
\<close>

record VanetBlockchainApp =
  m_nodeName :: string
  m_nodeType :: NodeType
  m_n_rsus :: int
  m_f_rsus :: int
  m_localBlockchain :: "VanetBlock list"
  m_transactionPool :: "Transaction list"
  m_vehicleKeys :: "string \<rightharpoonup> string"
  m_vehicleReputations :: "string \<rightharpoonup> real"
  m_vehicleReportHistory :: "string \<rightharpoonup> int list"
  m_pbftActiveConsensus :: "string \<rightharpoonup> PbftBlockState"
  m_pendingPbftBlocks :: "string \<rightharpoonup> VanetBlock"
  m_pbftCurrentView :: nat
  m_pbftCurrentSeqNum :: nat
  m_activeClusters :: "(string \<times> EventCluster) list"
  m_distanceThreshold :: real
  m_timeThreshold :: int
  m_alpha :: real
  m_beta :: real
  forwarded :: "Transaction list"
  scheduledChecks :: "string list"

section \<open>Reputation and trust ledger\<close>

definition HISTORY_WINDOW_N :: nat where "HISTORY_WINDOW_N = 20"
definition WEIGHT_RPF :: real where "WEIGHT_RPF = 0.6"
definition WEIGHT_VOL :: real where "WEIGHT_VOL = 0.4"
definition DECAY_GAMMA :: real where "DECAY_GAMMA = 0.90"
definition CONFIDENCE_THRESHOLD_TAU :: real where "CONFIDENCE_THRESHOLD_TAU = 0.70"

text \<open>\<^verbatim>\<open>HandleReputationRequest\<close>: the number written into the response.\<close>

definition HandleReputationRequest :: "VanetBlockchainApp \<Rightarrow> string \<Rightarrow> real" where
  "HandleReputationRequest s vid =
     (case m_vehicleReputations s vid of Some r \<Rightarrow> r | None \<Rightarrow> - 1.0)"

text \<open>\<^verbatim>\<open>ForwardTransactionToLeader\<close> hands the transaction to the batch manager (on the
  leader) or to the network (elsewhere); the model records the hand-over.\<close>

definition ForwardTransactionToLeader :: "VanetBlockchainApp \<Rightarrow> Transaction \<Rightarrow> VanetBlockchainApp" where
  "ForwardTransactionToLeader s tx = s\<lparr>forwarded := forwarded s @ [tx]\<rparr>"

definition InitiateReputationUpdate ::
  "int \<Rightarrow> VanetBlockchainApp \<Rightarrow> string \<Rightarrow> string \<Rightarrow> real \<Rightarrow> real \<Rightarrow> VanetBlockchainApp" where
  "InitiateReputationUpdate now s vid eid oldRep newRep =
     ForwardTransactionToLeader s
       ((Transaction_default REPUTATION_UPDATE)
          \<lparr> tx_timestamp := nat now, vehicleId_rep := vid, eventId_rep := eid,
            oldReputation := oldRep, newReputation := newRep \<rparr>)"

definition InitiateEventDecision ::
  "int \<Rightarrow> VanetBlockchainApp \<Rightarrow> string \<Rightarrow> string \<Rightarrow> string \<Rightarrow> nat \<Rightarrow>
   (string \<times> string) list \<Rightarrow> string \<Rightarrow> real \<Rightarrow> VanetBlockchainApp" where
  "InitiateEventDecision now s eid etype loc etime reps verdict credibility =
     ForwardTransactionToLeader s
       ((Transaction_default EVENT_DECISION)
          \<lparr> tx_timestamp := nat now, eventId_dec := eid, eventType := etype,
            eventLocation := loc, eventTimestamp := etime, eventReports := reps,
            eventVerdict := verdict, eventCredibility := credibility \<rparr>)"

text \<open>\<^verbatim>\<open>UpdateLocalHistory\<close>: push the outcome at the back, drop the front once the
  window is exceeded. \<^verbatim>\<open>operator[]\<close> creates an empty history for an unknown vehicle.\<close>

definition UpdateLocalHistory :: "VanetBlockchainApp \<Rightarrow> string \<Rightarrow> bool \<Rightarrow> VanetBlockchainApp" where
  "UpdateLocalHistory s vid isCorrect =
     (let outcome = (if isCorrect then 1 else 0);
          h = (case m_vehicleReportHistory s vid of Some h \<Rightarrow> h | None \<Rightarrow> []) @ [outcome];
          h' = (if length h > HISTORY_WINDOW_N then tl h else h)
      in s\<lparr>m_vehicleReportHistory := (m_vehicleReportHistory s)(vid \<mapsto> h')\<rparr>)"

text \<open>The first loop of \<^verbatim>\<open>CalculateSuspicionScore\<close>, over \<open>i = 0 .. N - 1\<close>, with the
  pair (numerator, denominator) as its state.\<close>

definition rpf_loop :: "int list \<Rightarrow> real \<times> real" where
  "rpf_loop history =
     foldl (\<lambda>(numerator_rpf, denominator_rpf) i.
              let weight = DECAY_GAMMA ^ (length history - 1 - i)
              in (numerator_rpf + real_of_int (history ! i) * weight, denominator_rpf + weight))
           (0, 0) [0..<length history]"

definition RPF :: "int list \<Rightarrow> real" where
  "RPF history =
     (let (numerator_rpf, denominator_rpf) = rpf_loop history
      in if denominator_rpf > 0 then numerator_rpf / denominator_rpf else 0)"

text \<open>The second loop, over \<open>i = 1 .. N - 1\<close>.\<close>

definition volatility_sum :: "int list \<Rightarrow> real" where
  "volatility_sum history =
     foldl (\<lambda>acc i. acc + real_of_int \<bar>history ! i - history ! (i - 1)\<bar>) 0 [1..<length history]"

definition F_vol :: "int list \<Rightarrow> real" where
  "F_vol history =
     (if length history > 1 then volatility_sum history / real (length history - 1) else 0)"

definition CalculateSuspicionScore :: "VanetBlockchainApp \<Rightarrow> string \<Rightarrow> real" where
  "CalculateSuspicionScore s vid =
     (case m_vehicleReportHistory s vid of
        None \<Rightarrow> 0
      | Some history \<Rightarrow>
          if history = [] then 0
          else WEIGHT_RPF * (1 - RPF history) + WEIGHT_VOL * F_vol history)"

text \<open>The body of the loop of \<^verbatim>\<open>UpdateReputations\<close>, for one report.\<close>

definition newReputation_of :: "real \<Rightarrow> real \<Rightarrow> real \<Rightarrow> bool \<Rightarrow> real" where
  "newReputation_of alpha beta oldRep isCorrect =
     (let delta_R = (if isCorrect then alpha * (1 - oldRep) else - beta * oldRep);
          newRep = oldRep + delta_R
      in max 0 (min 1 newRep))"

definition update_one ::
  "int \<Rightarrow> string \<Rightarrow> string \<Rightarrow> VanetBlockchainApp \<Rightarrow> EventReport \<Rightarrow> VanetBlockchainApp" where
  "update_one now eid groundTruth s report =
     (let oldRep = (case m_vehicleReputations s (vehicleId report) of Some r \<Rightarrow> r | None \<Rightarrow> 0.5);
          isCorrect = (reportedEventType report = groundTruth);
          newRep = newReputation_of (m_alpha s) (m_beta s) oldRep isCorrect;
          s1 = s\<lparr>m_vehicleReputations := (m_vehicleReputations s)(vehicleId report \<mapsto> newRep)\<rparr>;
          s2 = UpdateLocalHistory s1 (vehicleId report) isCorrect
      in InitiateReputationUpdate now s2 (vehicleId report) eid oldRep newRep)"

definition UpdateReputations ::
  "int \<Rightarrow> VanetBlockchainApp \<Rightarrow> EventCluster \<Rightarrow> string \<Rightarrow> string \<Rightarrow> VanetBlockchainApp" where
  "UpdateReputations now s cluster verdict groundTruth =
     (if verdict \<noteq> ''VALIDATED'' then s
      else foldl (update_one now (eventId cluster) groundTruth) s (reports cluster))"

text \<open>The data-model invariants of the ledger: every stored reputation lies in [0,1], and
  every stored outcome is 0 or 1.\<close>

definition history_binary :: "VanetBlockchainApp \<Rightarrow> bool" where
  "history_binary s =
     (\<forall>v h. m_vehicleReportHistory s v = Some h \<longrightarrow> (\<forall>x\<in>set h. x = 0 \<or> x = 1))"

definition reputations_bounded :: "VanetBlockchainApp \<Rightarrow> bool" where
  "reputations_bounded s = (\<forall>v r. m_vehicleReputations s v = Some r \<longrightarrow> 0 \<le> r \<and> r \<le> 1)"

section \<open>Transactions, blocks and the chain\<close>

text \<open>
  What the code takes from outside the repository is a parameter: the SHA-256 digest in
  hexadecimal (OpenSSL), the formatting of a \<^verbatim>\<open>double\<close> (by a stream, by a stream
  set to two fixed decimals, by \<^verbatim>\<open>std::to_string\<close>), its parsing by \<^verbatim>\<open>std::stod\<close>
  (\<open>None\<close> when it throws), and \<^verbatim>\<open>std::hash<std::string>\<close>.
\<close>

record Env =
  sha256_hex :: "string \<Rightarrow> string"
  fmt_double :: "real \<Rightarrow> string"
  fmt_fixed2 :: "real \<Rightarrow> string"
  to_string_double :: "real \<Rightarrow> string"
  stod :: "string \<Rightarrow> real option"
  std_hash :: "string \<Rightarrow> nat"

text \<open>Decimal output of an unsigned integer (\<^verbatim>\<open>operator<<\<close>, \<^verbatim>\<open>std::to_string\<close>).\<close>

definition digit_char :: "nat \<Rightarrow> char" where
  "digit_char d = char_of (48 + d)"

function to_string_nat :: "nat \<Rightarrow> string" where
  "to_string_nat n =
     (if n < 10 then [digit_char n] else to_string_nat (n div 10) @ [digit_char (n mod 10)])"
  by pat_completeness auto
termination
  by (relation "measure id") auto

declare to_string_nat.simps [simp del]

text \<open>\<^verbatim>\<open>Transaction::serialize\<close>. The three enumerators exhaust the datatype, so the
  source's last branch (an unknown type) has no counterpart, and the result is never empty.\<close>

definition serialize :: "Env \<Rightarrow> Transaction \<Rightarrow> string" where
  "serialize env tx =
     (if tx_type tx = REGISTRATION then
        (if vehicleId_reg tx = [] \<or> publicKey tx = [] then ''REG:ERROR:ERROR:0.5''
         else ''REG:'' @ vehicleId_reg tx @ '':'' @ publicKey tx @ '':'' @
              fmt_double env (initialReputation tx))
      else if tx_type tx = REPUTATION_UPDATE then
        ''REP:'' @ vehicleId_rep tx @ '':'' @ fmt_double env (oldReputation tx) @ '':'' @
        fmt_double env (newReputation tx)
      else ''EVT:'' @ eventId_dec tx @ '':'' @ eventVerdict tx)"

text \<open>\<^verbatim>\<open>VanetBlock::calculateHash\<close>: the digest of height, timestamp, previous hash,
  proposer and the serialized transactions; the \<^verbatim>\<open>blockHash\<close> field is not read.\<close>

definition calculateHash :: "Env \<Rightarrow> VanetBlock \<Rightarrow> string" where
  "calculateHash env b =
     sha256_hex env
       (to_string_nat (height b) @ to_string_nat (block_timestamp b) @ previousHash b @
        proposerId b @ concat (map (serialize env) (transactions b)))"

definition ValidateBlock :: "Env \<Rightarrow> VanetBlock \<Rightarrow> bool" where
  "ValidateBlock env b = (blockHash b = calculateHash env b)"

definition genesisBlock :: "Env \<Rightarrow> VanetBlock" where
  "genesisBlock env =
     (let g = \<lparr> height = 0, block_timestamp = 0, previousHash = replicate 64 CHR ''0'',
                 blockHash = [], proposerId = ''Genesis'', transactions = [],
                 consensusSignatures = [] \<rparr>
      in g\<lparr>blockHash := calculateHash env g\<rparr>)"

text \<open>The constructor: a chain holding the genesis block, empty tables, and the tuned
  defaults of the initialiser list (ten seconds are \<open>10\<^sup>1\<^sup>0\<close> nanosecond steps).\<close>

definition VanetBlockchainApp_init :: "Env \<Rightarrow> VanetBlockchainApp" where
  "VanetBlockchainApp_init env =
     \<lparr> m_nodeName = ''RSU-0'', m_nodeType = VEHICLE_CLIENT, m_n_rsus = 0, m_f_rsus = 0,
       m_localBlockchain = [genesisBlock env], m_transactionPool = [],
       m_vehicleKeys = Map.empty, m_vehicleReputations = Map.empty,
       m_vehicleReportHistory = Map.empty, m_pbftActiveConsensus = Map.empty,
       m_pendingPbftBlocks = Map.empty, m_pbftCurrentView = 0, m_pbftCurrentSeqNum = 0,
       m_activeClusters = [], m_distanceThreshold = 50.0, m_timeThreshold = 10000000000,
       m_alpha = 0.05, m_beta = 0.35, forwarded = [], scheduledChecks = [] \<rparr>"

definition SetRsuList :: "VanetBlockchainApp \<Rightarrow> string list \<Rightarrow> VanetBlockchainApp" where
  "SetRsuList s rsuList =
     (let n = int (length rsuList)
      in s\<lparr> m_n_rsus := n, m_f_rsus := (if n > 0 then (n - 1) div 3 else 0) \<rparr>)"

text \<open>The effect of one committed transaction on the key and reputation tables
  (the loop body of \<^verbatim>\<open>AddBlockToChain\<close>).\<close>

definition apply_tx :: "VanetBlockchainApp \<Rightarrow> Transaction \<Rightarrow> VanetBlockchainApp" where
  "apply_tx s tx =
     (if tx_type tx = REGISTRATION then
        s\<lparr> m_vehicleKeys := (m_vehicleKeys s)(vehicleId_reg tx \<mapsto> publicKey tx),
           m_vehicleReputations := (m_vehicleReputations s)(vehicleId_reg tx \<mapsto> initialReputation tx) \<rparr>
      else if tx_type tx = REPUTATION_UPDATE then
        s\<lparr> m_vehicleReputations := (m_vehicleReputations s)(vehicleId_rep tx \<mapsto> newReputation tx) \<rparr>
      else s)"

text \<open>
  \<^verbatim>\<open>AddBlockToChain\<close>. The two guards come first: the previous hash must be the hash of
  the chain's last block, and the block's hash must not be in the chain yet. The metrics
  the source records and the registration acknowledgements it sends are left out; the
  chain is never empty (the constructor puts the genesis block in it, nothing removes one).
\<close>

definition AddBlockToChain :: "VanetBlockchainApp \<Rightarrow> VanetBlock \<Rightarrow> VanetBlockchainApp" where
  "AddBlockToChain s b =
     (if previousHash b \<noteq> blockHash (last (m_localBlockchain s)) then s
      else if \<exists>existingBlock \<in> set (m_localBlockchain s). blockHash existingBlock = blockHash b then s
      else foldl apply_tx (s\<lparr>m_localBlockchain := m_localBlockchain s @ [b]\<rparr>) (transactions b))"

section \<open>BFT consensus state machine\<close>

definition SignString :: "Env \<Rightarrow> VanetBlockchainApp \<Rightarrow> string \<Rightarrow> string" where
  "SignString env s data =
     ''Sig('' @ data @ '')_by_'' @ m_nodeName s @ ''_'' @
     to_string_nat (std_hash env (data @ m_nodeName s @ ''_privKey''))"

definition CreateCandidateBlock :: "Env \<Rightarrow> int \<Rightarrow> VanetBlockchainApp \<Rightarrow> VanetBlock" where
  "CreateCandidateBlock env now s =
     (let b = \<lparr> height = height (last (m_localBlockchain s)) + 1, block_timestamp = nat now,
                 previousHash = blockHash (last (m_localBlockchain s)), blockHash = [],
                 proposerId = m_nodeName s, transactions = m_transactionPool s,
                 consensusSignatures = [] \<rparr>
      in b\<lparr>blockHash := calculateHash env b\<rparr>)"

text \<open>\<^verbatim>\<open>StartPbft\<close>: the proposer opens the round with its own prepare and commit votes.\<close>

definition StartPbft :: "Env \<Rightarrow> VanetBlockchainApp \<Rightarrow> VanetBlock \<Rightarrow> VanetBlockchainApp" where
  "StartPbft env s newBlock =
     (if m_pbftActiveConsensus s (blockHash newBlock) \<noteq> None then s
      else
        let newState = \<lparr> phase = PRE_PREPARE_SENT, block = newBlock, view = m_pbftCurrentView s,
                          state_seqNum = m_pbftCurrentSeqNum s, state_proposerId = m_nodeName s,
                          prepareVotes = [(m_nodeName s, SignString env s (blockHash newBlock @ ''PREPARE''))],
                          commitVotes = [(m_nodeName s, SignString env s (blockHash newBlock @ ''COMMIT''))] \<rparr>
        in s\<lparr> m_pbftCurrentSeqNum := m_pbftCurrentSeqNum s + 1,
              m_pbftActiveConsensus := (m_pbftActiveConsensus s)(blockHash newBlock \<mapsto> newState),
              m_pendingPbftBlocks := (m_pendingPbftBlocks s)(blockHash newBlock \<mapsto> newBlock) \<rparr>)"

definition BroadcastPrepare :: "Env \<Rightarrow> VanetBlockchainApp \<Rightarrow> string \<Rightarrow> VanetBlockchainApp" where
  "BroadcastPrepare env s h =
     (case m_pbftActiveConsensus s h of
        None \<Rightarrow> s
      | Some currentState \<Rightarrow>
          s\<lparr>m_pbftActiveConsensus := (m_pbftActiveConsensus s)(h \<mapsto>
               currentState\<lparr> phase := PREPARE_SENT,
                              prepareVotes := AList.update (m_nodeName s)
                                 (SignString env s (h @ ''PREPARE'')) (prepareVotes currentState) \<rparr>)\<rparr>)"

definition BroadcastCommit :: "Env \<Rightarrow> VanetBlockchainApp \<Rightarrow> string \<Rightarrow> VanetBlockchainApp" where
  "BroadcastCommit env s h =
     (case m_pbftActiveConsensus s h of
        None \<Rightarrow> s
      | Some currentState \<Rightarrow>
          s\<lparr>m_pbftActiveConsensus := (m_pbftActiveConsensus s)(h \<mapsto>
               currentState\<lparr> phase := COMMIT_SENT,
                              commitVotes := AList.update (m_nodeName s)
                                 (SignString env s (h @ ''COMMIT'')) (commitVotes currentState) \<rparr>)\<rparr>)"

text \<open>
  \<^verbatim>\<open>HandlePrePrepare\<close>, from the point where the payload has been parsed into
  \<open>receivedBlock\<close>: the parser takes height, previous hash and transactions from the
  payload, and sets the block's hash to the \<open>blockHash\<close> component of the message name
  (\<^verbatim>\<open>receivedBlock.blockHash = blockHash\<close>), its proposer to the sender and its timestamp
  to the time of receipt. The only validation is the comparison of the previous hash.
\<close>

definition HandlePrePrepare ::
  "Env \<Rightarrow> int \<Rightarrow> VanetBlockchainApp \<Rightarrow> string \<Rightarrow> string \<Rightarrow> nat \<Rightarrow> nat \<Rightarrow> VanetBlock \<Rightarrow> VanetBlockchainApp" where
  "HandlePrePrepare env now s h sender v sq parsed =
     (if sender = m_nodeName s then s
      else if sender \<noteq> ''RSU-0'' then s
      else if m_pbftActiveConsensus s h \<noteq> None then s
      else
        let receivedBlock = parsed\<lparr> blockHash := h, proposerId := sender, block_timestamp := nat now \<rparr>
        in if previousHash receivedBlock \<noteq> blockHash (last (m_localBlockchain s)) then s
           else
             let newState = \<lparr> phase = PRE_PREPARE_RECEIVED, block = receivedBlock, view = v,
                               state_seqNum = sq, state_proposerId = sender,
                               prepareVotes = [], commitVotes = [] \<rparr>
             in BroadcastPrepare env
                  (s\<lparr> m_pbftActiveConsensus := (m_pbftActiveConsensus s)(h \<mapsto> newState),
                      m_pendingPbftBlocks := (m_pendingPbftBlocks s)(h \<mapsto> receivedBlock) \<rparr>) h)"

fun phase_rank :: "PbftPhase \<Rightarrow> nat" where
  "phase_rank IDLE = 0"
| "phase_rank PRE_PREPARE_SENT = 1"
| "phase_rank PRE_PREPARE_RECEIVED = 2"
| "phase_rank PREPARE_SENT = 3"
| "phase_rank COMMIT_SENT = 4"
| "phase_rank COMMITTED = 5"

text \<open>The quorum \<open>2f + 1\<close>. The source holds it and the table sizes in 32-bit unsigned
  variables; \<open>f\<close> is never negative and the tables stay far below \<open>2\<^sup>3\<^sup>2\<close> entries, so
  the comparison is the one of the integers.\<close>

definition required :: "VanetBlockchainApp \<Rightarrow> int" where
  "required s = 2 * m_f_rsus s + 1"

definition HandlePrepare :: "Env \<Rightarrow> VanetBlockchainApp \<Rightarrow> string \<Rightarrow> string \<Rightarrow> VanetBlockchainApp" where
  "HandlePrepare env s h voterId =
     (case m_pbftActiveConsensus s h of
        None \<Rightarrow> s
      | Some state \<Rightarrow>
          if map_of (prepareVotes state) voterId \<noteq> None then s
          else
            let state1 = state\<lparr>prepareVotes := prepareVotes state @ [(voterId, ''prepare_vote'')]\<rparr>;
                s1 = s\<lparr>m_pbftActiveConsensus := (m_pbftActiveConsensus s)(h \<mapsto> state1)\<rparr>;
                prepareCount = int (length (prepareVotes state1))
            in if prepareCount \<ge> required s \<and> phase_rank (phase state1) < phase_rank COMMIT_SENT
               then BroadcastCommit env s1 h else s1)"

text \<open>
  \<^verbatim>\<open>HandleCommit\<close>. A vote for an unknown round, for a committed round, or from a voter
  already counted changes nothing. Otherwise the vote is stored, and when the table then
  holds at least \<open>2f + 1\<close> votes the round is marked committed, the block is handed to
  \<^verbatim>\<open>AddBlockToChain\<close>, the pool loses the block's transactions and the round is erased.
\<close>

definition HandleCommit :: "Env \<Rightarrow> VanetBlockchainApp \<Rightarrow> string \<Rightarrow> string \<Rightarrow> VanetBlockchainApp" where
  "HandleCommit env s h voterId =
     (case m_pbftActiveConsensus s h of
        None \<Rightarrow> s
      | Some state \<Rightarrow>
          if phase state = COMMITTED then s
          else if map_of (commitVotes state) voterId \<noteq> None then s
          else
            let state1 = state\<lparr>commitVotes := commitVotes state @ [(voterId, ''commit_vote'')]\<rparr>;
                s1 = s\<lparr>m_pbftActiveConsensus := (m_pbftActiveConsensus s)(h \<mapsto> state1)\<rparr>;
                commitCount = int (length (commitVotes state1))
            in if commitCount \<ge> required s then
                 let state2 = state1\<lparr>phase := COMMITTED\<rparr>;
                     s2 = s1\<lparr>m_pbftActiveConsensus := (m_pbftActiveConsensus s1)(h \<mapsto> state2)\<rparr>;
                     s3 = AddBlockToChain s2 (block state2);
                     remainingTxs = filter (\<lambda>poolTx. \<not> (\<exists>blockTx \<in> set (transactions (block state2)).
                                                serialize env poolTx = serialize env blockTx))
                                      (m_transactionPool s3)
                 in s3\<lparr> m_transactionPool := remainingTxs,
                        m_pbftActiveConsensus := (m_pbftActiveConsensus s3)(h := None),
                        m_pendingPbftBlocks := (m_pendingPbftBlocks s3)(h := None) \<rparr>
               else s1)"

section \<open>Event clustering\<close>

definition to_string_int :: "int \<Rightarrow> string" where
  "to_string_int i = (if i < 0 then CHR ''-'' # to_string_nat (nat (- i)) else to_string_nat (nat i))"

text \<open>The conversion of a \<^verbatim>\<open>double\<close> to an integer type drops the fraction.\<close>

definition trunc_double :: "real \<Rightarrow> int" where
  "trunc_double x = (if x \<ge> 0 then \<lfloor>x\<rfloor> else \<lceil>x\<rceil>)"

text \<open>\<^verbatim>\<open>ns3::CalculateDistance\<close>: the Euclidean length of the difference.\<close>

definition CalculateDistance :: "real \<times> real \<times> real \<Rightarrow> real \<times> real \<times> real \<Rightarrow> real" where
  "CalculateDistance pos1 pos2 =
     (case pos1 of (x1, y1, z1) \<Rightarrow> case pos2 of (x2, y2, z2) \<Rightarrow>
        sqrt ((x2 - x1)\<^sup>2 + (y2 - y1)\<^sup>2 + (z2 - z1)\<^sup>2))"

text \<open>The signature \<^verbatim>\<open>VerifyVehicleSignature\<close> expects for a report; it reads neither the
  report's own signature nor the key table.\<close>

definition expectedSignature :: "Env \<Rightarrow> EventReport \<Rightarrow> string" where
  "expectedSignature env report =
     (case location report of (x, y, z) \<Rightarrow>
        let locationStr =
              (if x = real_of_int (trunc_double x) \<and> y = real_of_int (trunc_double y)
               then to_string_int (trunc_double x) @ ''_'' @ to_string_int (trunc_double y)
               else fmt_fixed2 env x @ ''_'' @ fmt_fixed2 env y);
            dataToVerify = vehicleId report @ '';'' @ reportedEventType report @ '';'' @
                           locationStr @ '';'' @
                           to_string_int (trunc_double (real_of_int (report_timestamp report) / 1000000000)) @
                           '';'' @ to_string_nat (seqNum report);
            pseudoPrivateKeyComponent = ''PrivKey_'' @ vehicleId report @ ''_'' @
                           to_string_nat (std_hash env (vehicleId report @ ''priv''))
        in ''Sig('' @ dataToVerify @ '')_by_'' @ vehicleId report @ ''_'' @
           to_string_nat (std_hash env (dataToVerify @ pseudoPrivateKeyComponent)))"

definition VerifyVehicleSignature :: "Env \<Rightarrow> VanetBlockchainApp \<Rightarrow> EventReport \<Rightarrow> bool" where
  "VerifyVehicleSignature env s report =
     (if m_nodeType s \<noteq> RSU_VALIDATOR then False
      else case m_vehicleKeys s (vehicleId report) of
        None \<Rightarrow> False
      | Some registeredKey \<Rightarrow> signature report = expectedSignature env report)"

text \<open>The test at the heart of \<^verbatim>\<open>FindMatchingCluster\<close>, for one cluster: the
  comparison reads the report's \<^verbatim>\<open>originalEventType\<close>.\<close>

definition typeMatch :: "string \<Rightarrow> string \<Rightarrow> bool" where
  "typeMatch reportType clusterType =
     (reportType = clusterType \<or>
      (reportType = ''Accident'' \<and> clusterType = ''Breakdown'') \<or>
      (reportType = ''Breakdown'' \<and> clusterType = ''Accident'') \<or>
      (reportType = ''Jam'' \<and> clusterType = ''Construction'') \<or>
      (reportType = ''Construction'' \<and> clusterType = ''Jam'') \<or>
      (reportType = ''Roadwork'' \<and> clusterType = ''Construction'') \<or>
      (reportType = ''Construction'' \<and> clusterType = ''Roadwork''))"

definition cluster_accepts :: "VanetBlockchainApp \<Rightarrow> EventReport \<Rightarrow> EventCluster \<Rightarrow> bool" where
  "cluster_accepts s report cluster =
     (let dist = CalculateDistance (location report) (centerLocation cluster);
          timeDiff = (if report_timestamp report > centerTime cluster
                      then report_timestamp report - centerTime cluster
                      else centerTime cluster - report_timestamp report)
      in typeMatch (originalEventType report) (cluster_eventType cluster) \<and>
         dist < m_distanceThreshold s \<and> timeDiff < m_timeThreshold s)"

fun find_cluster :: "VanetBlockchainApp \<Rightarrow> EventReport \<Rightarrow> (string \<times> EventCluster) list \<Rightarrow> string" where
  "find_cluster s report [] = []"
| "find_cluster s report ((key, cluster) # rest) =
     (if decisionMade cluster then find_cluster s report rest
      else if cluster_accepts s report cluster then key
      else find_cluster s report rest)"

definition FindMatchingCluster :: "VanetBlockchainApp \<Rightarrow> EventReport \<Rightarrow> string" where
  "FindMatchingCluster s report = find_cluster s report (m_activeClusters s)"

definition ScheduleClusterCheck :: "VanetBlockchainApp \<Rightarrow> string \<Rightarrow> VanetBlockchainApp" where
  "ScheduleClusterCheck s eid =
     (case map_of (m_activeClusters s) eid of
        None \<Rightarrow> s
      | Some cluster \<Rightarrow>
          if decisionMade cluster then s else s\<lparr>scheduledChecks := scheduledChecks s @ [eid]\<rparr>)"

text \<open>
  \<^verbatim>\<open>ProcessEventReport\<close>; the body the source schedules with a delay of zero runs at
  once. \<^verbatim>\<open>m_activeClusters[id] = c\<close> replaces the cluster stored under \<open>id\<close> or adds a
  new entry.
\<close>

definition ProcessEventReport ::
  "Env \<Rightarrow> int \<Rightarrow> VanetBlockchainApp \<Rightarrow> EventReport \<Rightarrow> VanetBlockchainApp" where
  "ProcessEventReport env now s report =
     (if m_nodeType s \<noteq> RSU_VALIDATOR then s
      else if \<not> VerifyVehicleSignature env s report then s
      else
        let clusterId = FindMatchingCluster s report
        in if clusterId = [] then
             let newCluster = \<lparr> eventId = ''Evt_'' @ vehicleId report @ ''_'' @
                                           to_string_int (report_timestamp report),
                                 cluster_eventType = originalEventType report,
                                 centerLocation = location report,
                                 centerTime = report_timestamp report,
                                 reports = [report], creationTime = now, decisionMade = False \<rparr>
             in ScheduleClusterCheck
                  (s\<lparr>m_activeClusters := AList.update (eventId newCluster) newCluster (m_activeClusters s)\<rparr>)
                  (eventId newCluster)
           else
             s\<lparr>m_activeClusters :=
                 AList.map_entry clusterId (\<lambda>c. c\<lparr>reports := reports c @ [report]\<rparr>) (m_activeClusters s)\<rparr>)"

section \<open>Double arithmetic\<close>

text \<open>
  The code computes in IEEE 754 binary64. Rounding to the nearest double, ties to the even
  significand, is the function \<open>binary64\<close> below: 53 significant bits down to the exponent
  \<open>-1022\<close>, and the fixed spacing \<open>2\<^sup>-\<^sup>1\<^sup>0\<^sup>7\<^sup>4\<close> of the subnormal numbers under it. It is
  the rounding of the code wherever the result is finite; overflow to an infinity is outside
  of it.
\<close>

definition round_half_even :: "real \<Rightarrow> int" where
  "round_half_even x =
     (let f = \<lfloor>x\<rfloor>; d = x - of_int f
      in if d < 1 / 2 then f else if d > 1 / 2 then f + 1 else if even f then f else f + 1)"

definition binary64 :: "real \<Rightarrow> real" where
  "binary64 x =
     (if x = 0 then 0
      else let e = max \<lfloor>log 2 \<bar>x\<bar>\<rfloor> (- 1022);
               q = 2 powr of_int (e - 52)
           in of_int (round_half_even (x / q)) * q)"

text \<open>
  The ledger and the credibility computation store finite doubles, which are real numbers.
  An operation of the code on them is the exact operation followed by rounding, and a
  literal stands for the nearest double. The rounding and \<^verbatim>\<open>std::pow\<close> (a library function,
  not bound to be correctly rounded) are parameters of the functions below, whose names
  end in \<open>_d\<close>; the functions of the same names without the ending are their idealisation in
  exact arithmetic, on which the statements about real numbers (bounds, sums) are made.
\<close>

record Fp =
  fp_round :: "real \<Rightarrow> real"
  fp_pow :: "real \<Rightarrow> nat \<Rightarrow> real"

definition exact_arith :: Fp where
  "exact_arith = \<lparr> fp_round = (\<lambda>x. x), fp_pow = (\<lambda>x n. x ^ n) \<rparr>"

definition binary64_fp :: Fp where
  "binary64_fp = \<lparr> fp_round = binary64, fp_pow = (\<lambda>x n. binary64 (x ^ n)) \<rparr>"

text \<open>\<^verbatim>\<open>CalculateSuspicionScore\<close> in doubles. An \<^verbatim>\<open>int\<close> of the history converts exactly.\<close>

definition rpf_loop_d :: "Fp \<Rightarrow> int list \<Rightarrow> real \<times> real" where
  "rpf_loop_d fp history =
     foldl (\<lambda>(numerator_rpf, denominator_rpf) i.
              let weight = fp_pow fp (fp_round fp DECAY_GAMMA) (length history - 1 - i)
              in (fp_round fp (numerator_rpf + fp_round fp (real_of_int (history ! i) * weight)),
                  fp_round fp (denominator_rpf + weight)))
           (0, 0) [0..<length history]"

definition RPF_d :: "Fp \<Rightarrow> int list \<Rightarrow> real" where
  "RPF_d fp history =
     (let (numerator_rpf, denominator_rpf) = rpf_loop_d fp history
      in if denominator_rpf > 0 then fp_round fp (numerator_rpf / denominator_rpf) else 0)"

definition volatility_sum_d :: "Fp \<Rightarrow> int list \<Rightarrow> real" where
  "volatility_sum_d fp history =
     foldl (\<lambda>acc i. fp_round fp (acc + real_of_int \<bar>history ! i - history ! (i - 1)\<bar>))
           0 [1..<length history]"

definition F_vol_d :: "Fp \<Rightarrow> int list \<Rightarrow> real" where
  "F_vol_d fp history =
     (if length history > 1
      then fp_round fp (volatility_sum_d fp history / real (length history - 1)) else 0)"

definition CalculateSuspicionScore_d :: "Fp \<Rightarrow> VanetBlockchainApp \<Rightarrow> string \<Rightarrow> real" where
  "CalculateSuspicionScore_d fp s vid =
     (case m_vehicleReportHistory s vid of
        None \<Rightarrow> 0
      | Some history \<Rightarrow>
          if history = [] then 0
          else fp_round fp
                 (fp_round fp (fp_round fp WEIGHT_RPF * fp_round fp (1 - RPF_d fp history)) +
                  fp_round fp (fp_round fp WEIGHT_VOL * F_vol_d fp history)))"

text \<open>\<^verbatim>\<open>UpdateReputations\<close> in doubles.\<close>

definition newReputation_of_d :: "Fp \<Rightarrow> real \<Rightarrow> real \<Rightarrow> real \<Rightarrow> bool \<Rightarrow> real" where
  "newReputation_of_d fp alpha beta oldRep isCorrect =
     (let delta_R = (if isCorrect then fp_round fp (alpha * fp_round fp (1 - oldRep))
                     else fp_round fp (- beta * oldRep));
          newRep = fp_round fp (oldRep + delta_R)
      in max 0 (min 1 newRep))"

definition update_one_d ::
  "Fp \<Rightarrow> int \<Rightarrow> string \<Rightarrow> string \<Rightarrow> VanetBlockchainApp \<Rightarrow> EventReport \<Rightarrow> VanetBlockchainApp" where
  "update_one_d fp now eid groundTruth s report =
     (let oldRep = (case m_vehicleReputations s (vehicleId report) of Some r \<Rightarrow> r | None \<Rightarrow> 0.5);
          isCorrect = (reportedEventType report = groundTruth);
          newRep = newReputation_of_d fp (m_alpha s) (m_beta s) oldRep isCorrect;
          s1 = s\<lparr>m_vehicleReputations := (m_vehicleReputations s)(vehicleId report \<mapsto> newRep)\<rparr>;
          s2 = UpdateLocalHistory s1 (vehicleId report) isCorrect
      in InitiateReputationUpdate now s2 (vehicleId report) eid oldRep newRep)"

definition UpdateReputations_d ::
  "Fp \<Rightarrow> int \<Rightarrow> VanetBlockchainApp \<Rightarrow> EventCluster \<Rightarrow> string \<Rightarrow> string \<Rightarrow> VanetBlockchainApp" where
  "UpdateReputations_d fp now s cluster verdict groundTruth =
     (if verdict \<noteq> ''VALIDATED'' then s
      else foldl (update_one_d fp now (eventId cluster) groundTruth) s (reports cluster))"

section \<open>Credibility of an event\<close>

definition trust_factor :: "VanetBlockchainApp \<Rightarrow> string \<Rightarrow> real" where
  "trust_factor s vid =
     (let baseRep = (case m_vehicleReputations s vid of Some r \<Rightarrow> r | None \<Rightarrow> 0.5);
          R_suspicion = CalculateSuspicionScore s vid
      in baseRep * (1 - R_suspicion))"

text \<open>Step 1: the raw trust factor of every reporter, with the running minimum (from 1)
  and maximum (from 0).\<close>

definition raw_trust_step ::
  "VanetBlockchainApp \<Rightarrow> (string \<rightharpoonup> real) \<times> real \<times> real \<Rightarrow> EventReport \<Rightarrow>
   (string \<rightharpoonup> real) \<times> real \<times> real" where
  "raw_trust_step s acc r =
     (case acc of (rawTrustFactors, T_min, T_max) \<Rightarrow>
        let T_factor = trust_factor s (vehicleId r)
        in (rawTrustFactors(vehicleId r \<mapsto> T_factor),
            if T_factor < T_min then T_factor else T_min,
            if T_factor > T_max then T_factor else T_max))"

definition raw_trust :: "VanetBlockchainApp \<Rightarrow> EventReport list \<Rightarrow> (string \<rightharpoonup> real) \<times> real \<times> real" where
  "raw_trust s rs = foldl (raw_trust_step s) (Map.empty, 1.0, 0.0) rs"

text \<open>A read \<^verbatim>\<open>m[key]\<close> of a \<^verbatim>\<open>std::map<std::string, double>\<close>: 0 for a missing key.\<close>

definition at_key :: "(string \<rightharpoonup> real) \<Rightarrow> string \<Rightarrow> real" where
  "at_key m k = (case m k of Some x \<Rightarrow> x | None \<Rightarrow> 0)"

text \<open>Step 2: min-max normalisation, 0.5 for everybody when the factors coincide.\<close>

definition T_norm_of :: "(string \<rightharpoonup> real) \<Rightarrow> real \<Rightarrow> real \<Rightarrow> string \<Rightarrow> real" where
  "T_norm_of rawTrustFactors T_min T_max vid =
     (if \<bar>T_max - T_min\<bar> < 1 / 1000000 then 0.5
      else (at_key rawTrustFactors vid - T_min) / (T_max - T_min))"

definition norm_trust_step ::
  "(string \<rightharpoonup> real) \<Rightarrow> real \<Rightarrow> real \<Rightarrow> (string \<rightharpoonup> real) \<times> real \<Rightarrow> EventReport \<Rightarrow>
   (string \<rightharpoonup> real) \<times> real" where
  "norm_trust_step rawTrustFactors T_min T_max acc r =
     (case acc of (normTrustScores, sumT_all) \<Rightarrow>
        let T_norm = T_norm_of rawTrustFactors T_min T_max (vehicleId r)
        in (normTrustScores(vehicleId r \<mapsto> T_norm), sumT_all + T_norm))"

definition norm_trust ::
  "(string \<rightharpoonup> real) \<Rightarrow> real \<Rightarrow> real \<Rightarrow> EventReport list \<Rightarrow> (string \<rightharpoonup> real) \<times> real" where
  "norm_trust rawTrustFactors T_min T_max rs =
     foldl (norm_trust_step rawTrustFactors T_min T_max) (Map.empty, 0) rs"

text \<open>Step 3: the distinct claimed labels in order of first appearance, and the
  confidence of each.\<close>

definition uniqueClaims :: "EventReport list \<Rightarrow> string list" where
  "uniqueClaims rs =
     foldl (\<lambda>claims r. if reportedEventType r \<in> set claims then claims
                         else claims @ [reportedEventType r]) [] rs"

definition sumT_supporters :: "(string \<rightharpoonup> real) \<Rightarrow> EventReport list \<Rightarrow> string \<Rightarrow> real" where
  "sumT_supporters normTrustScores rs claim =
     foldl (\<lambda>acc r. if reportedEventType r = claim
                      then acc + at_key normTrustScores (vehicleId r) else acc) 0 rs"

definition claimConfidence :: "VanetBlockchainApp \<Rightarrow> EventReport list \<Rightarrow> (string \<times> real) list" where
  "claimConfidence s rs =
     (case raw_trust s rs of (rawTrustFactors, T_min, T_max) \<Rightarrow>
      case norm_trust rawTrustFactors T_min T_max rs of (normTrustScores, sumT_all) \<Rightarrow>
        map (\<lambda>claim. (claim, if sumT_all > 0
                              then sumT_supporters normTrustScores rs claim / sumT_all else 0))
            (uniqueClaims rs))"

text \<open>The winner: the confidence table is a \<^verbatim>\<open>std::map\<close>, read in the order of its keys;
  a later label replaces the current one only with a strictly larger confidence.\<close>

definition winning :: "(string \<times> real) list \<Rightarrow> string \<times> real" where
  "winning confidences =
     foldl (\<lambda>(winningClaim, C_max) (claim, c). if c > C_max then (claim, c) else (winningClaim, C_max))
           (''Unknown'', - 1.0) (sort_key fst confidences)"

text \<open>The same three steps in doubles.\<close>

definition trust_factor_d :: "Fp \<Rightarrow> VanetBlockchainApp \<Rightarrow> string \<Rightarrow> real" where
  "trust_factor_d fp s vid =
     (let baseRep = (case m_vehicleReputations s vid of Some r \<Rightarrow> r | None \<Rightarrow> 0.5);
          R_suspicion = CalculateSuspicionScore_d fp s vid
      in fp_round fp (baseRep * fp_round fp (1 - R_suspicion)))"

definition raw_trust_step_d ::
  "Fp \<Rightarrow> VanetBlockchainApp \<Rightarrow> (string \<rightharpoonup> real) \<times> real \<times> real \<Rightarrow> EventReport \<Rightarrow>
   (string \<rightharpoonup> real) \<times> real \<times> real" where
  "raw_trust_step_d fp s acc r =
     (case acc of (rawTrustFactors, T_min, T_max) \<Rightarrow>
        let T_factor = trust_factor_d fp s (vehicleId r)
        in (rawTrustFactors(vehicleId r \<mapsto> T_factor),
            if T_factor < T_min then T_factor else T_min,
            if T_factor > T_max then T_factor else T_max))"

definition raw_trust_d ::
  "Fp \<Rightarrow> VanetBlockchainApp \<Rightarrow> EventReport list \<Rightarrow> (string \<rightharpoonup> real) \<times> real \<times> real" where
  "raw_trust_d fp s rs = foldl (raw_trust_step_d fp s) (Map.empty, 1.0, 0.0) rs"

definition T_norm_of_d :: "Fp \<Rightarrow> (string \<rightharpoonup> real) \<Rightarrow> real \<Rightarrow> real \<Rightarrow> string \<Rightarrow> real" where
  "T_norm_of_d fp rawTrustFactors T_min T_max vid =
     (if \<bar>fp_round fp (T_max - T_min)\<bar> < fp_round fp (1 / 1000000) then 0.5
      else fp_round fp (fp_round fp (at_key rawTrustFactors vid - T_min) /
                        fp_round fp (T_max - T_min)))"

definition norm_trust_step_d ::
  "Fp \<Rightarrow> (string \<rightharpoonup> real) \<Rightarrow> real \<Rightarrow> real \<Rightarrow> (string \<rightharpoonup> real) \<times> real \<Rightarrow> EventReport \<Rightarrow>
   (string \<rightharpoonup> real) \<times> real" where
  "norm_trust_step_d fp rawTrustFactors T_min T_max acc r =
     (case acc of (normTrustScores, sumT_all) \<Rightarrow>
        let T_norm = T_norm_of_d fp rawTrustFactors T_min T_max (vehicleId r)
        in (normTrustScores(vehicleId r \<mapsto> T_norm), fp_round fp (sumT_all + T_norm)))"

definition norm_trust_d ::
  "Fp \<Rightarrow> (string \<rightharpoonup> real) \<Rightarrow> real \<Rightarrow> real \<Rightarrow> EventReport list \<Rightarrow> (string \<rightharpoonup> real) \<times> real" where
  "norm_trust_d fp rawTrustFactors T_min T_max rs =
     foldl (norm_trust_step_d fp rawTrustFactors T_min T_max) (Map.empty, 0) rs"

definition sumT_supporters_d ::
  "Fp \<Rightarrow> (string \<rightharpoonup> real) \<Rightarrow> EventReport list \<Rightarrow> string \<Rightarrow> real" where
  "sumT_supporters_d fp normTrustScores rs claim =
     foldl (\<lambda>acc r. if reportedEventType r = claim
                      then fp_round fp (acc + at_key normTrustScores (vehicleId r)) else acc) 0 rs"

definition claimConfidence_d ::
  "Fp \<Rightarrow> VanetBlockchainApp \<Rightarrow> EventReport list \<Rightarrow> (string \<times> real) list" where
  "claimConfidence_d fp s rs =
     (case raw_trust_d fp s rs of (rawTrustFactors, T_min, T_max) \<Rightarrow>
      case norm_trust_d fp rawTrustFactors T_min T_max rs of (normTrustScores, sumT_all) \<Rightarrow>
        map (\<lambda>claim. (claim, if sumT_all > 0
                              then fp_round fp (sumT_supporters_d fp normTrustScores rs claim / sumT_all)
                              else 0))
            (uniqueClaims rs))"

text \<open>Step 4: the verdict, against the double nearest to 0.70.\<close>

definition verdict_of :: "Fp \<Rightarrow> real \<Rightarrow> string" where
  "verdict_of fp C_max =
     (if C_max > fp_round fp CONFIDENCE_THRESHOLD_TAU then ''VALIDATED'' else ''UNCERTAIN'')"

text \<open>\<^verbatim>\<open>cluster.centerTime.GetTimeStep()\<close> is an \<^verbatim>\<open>int64_t\<close>, the parameter \<^verbatim>\<open>eventTime\<close> of
  \<^verbatim>\<open>InitiateEventDecision\<close> a \<^verbatim>\<open>uint64_t\<close>: a negative time step wraps around.\<close>

definition CalculateEventCredibility ::
  "Fp \<Rightarrow> Env \<Rightarrow> int \<Rightarrow> VanetBlockchainApp \<Rightarrow> EventCluster \<Rightarrow> VanetBlockchainApp" where
  "CalculateEventCredibility fp env now s cluster =
     (if reports cluster = [] then s
      else
        case winning (claimConfidence_d fp s (reports cluster)) of (winningClaim, C_max) \<Rightarrow>
          let verdict = verdict_of fp C_max;
              reportListTx = map (\<lambda>r. (vehicleId r, reportedEventType r)) (reports cluster);
              s1 = InitiateEventDecision now s (eventId cluster) winningClaim
                     (case centerLocation cluster of (x, y, z) \<Rightarrow>
                        to_string_double env x @ ''_'' @ to_string_double env y)
                     (nat (centerTime cluster mod 2 ^ 64)) reportListTx verdict C_max
          in UpdateReputations_d fp now s1 cluster verdict winningClaim)"

text \<open>\<^verbatim>\<open>CheckCluster\<close>: a cluster is decided once.\<close>

definition CheckCluster :: "Fp \<Rightarrow> Env \<Rightarrow> int \<Rightarrow> VanetBlockchainApp \<Rightarrow> string \<Rightarrow> VanetBlockchainApp" where
  "CheckCluster fp env now s eid =
     (case map_of (m_activeClusters s) eid of
        None \<Rightarrow> s
      | Some cluster \<Rightarrow>
          if decisionMade cluster then s
          else
            let cluster1 = cluster\<lparr>decisionMade := True\<rparr>;
                s1 = s\<lparr>m_activeClusters := AList.update eid cluster1 (m_activeClusters s)\<rparr>
            in CalculateEventCredibility fp env now s1 cluster1)"

section \<open>Adaptive batch manager\<close>









section \<open>Parsing a transaction batch\<close>

text \<open>
  The loop \<^verbatim>\<open>while (std::getline(ss, part, d)) parts.push_back(part)\<close>: a part ends at
  the delimiter or at the end of the input, and the loop stops when nothing is left to read,
  so a delimiter at the very end opens no further (empty) part.
\<close>

function getline_split :: "char \<Rightarrow> string \<Rightarrow> string list" where
  "getline_split d str =
     (if str = [] then []
      else takeWhile (\<lambda>c. c \<noteq> d) str #
           (case dropWhile (\<lambda>c. c \<noteq> d) str of
              [] \<Rightarrow> []
            | _ # rest \<Rightarrow> getline_split d rest))"
  by pat_completeness auto
termination
proof (relation "measure (\<lambda>(d, str). length str)")
  show "wf (measure (\<lambda>(d, str). length str))" by simp
next
  fix d :: char and str x21 x22
  assume "str \<noteq> []" and "dropWhile (\<lambda>c. c \<noteq> d) str = x21 # x22"
  then have "length (x21 # x22) \<le> length str"
    by (metis length_dropWhile_le)
  then show "((d, x22), (d, str)) \<in> measure (\<lambda>(d, str). length str)"
    by simp
qed

declare getline_split.simps [simp del]

text \<open>\<^verbatim>\<open>std::stoul\<close> in base ten: white space, an optional sign, digits. It throws (\<open>None\<close>)
  without a digit or beyond 64 bits; a minus sign negates modulo \<open>2\<^sup>6\<^sup>4\<close>.\<close>

definition is_space :: "char \<Rightarrow> bool" where
  "is_space c = (of_char c \<in> {32, 9, 10, 11, 12, 13 :: nat})"

definition is_digit :: "char \<Rightarrow> bool" where
  "is_digit c = (48 \<le> (of_char c :: nat) \<and> (of_char c :: nat) \<le> 57)"

definition digits_value :: "string \<Rightarrow> nat" where
  "digits_value ds = foldl (\<lambda>acc c. 10 * acc + (of_char c - 48)) 0 ds"

definition stoul :: "string \<Rightarrow> nat option" where
  "stoul str =
     (let s1 = dropWhile is_space str;
          negative = (s1 \<noteq> [] \<and> hd s1 = CHR ''-'');
          s2 = (if s1 \<noteq> [] \<and> (hd s1 = CHR ''-'' \<or> hd s1 = CHR ''+'') then tl s1 else s1);
          ds = takeWhile is_digit s2
      in if ds = [] then None
         else if digits_value ds \<ge> 2 ^ 64 then None
         else Some (if negative then (2 ^ 64 - digits_value ds) mod 2 ^ 64 else digits_value ds))"

text \<open>\<^verbatim>\<open>str.find(prefix) == 0\<close>.\<close>

definition starts_with :: "string \<Rightarrow> string \<Rightarrow> bool" where
  "starts_with pre str = (take (length pre) str = pre)"

text \<open>One element of the batch, after the \<^verbatim>\<open>TXi:\<close> prefix has been removed. The
  transaction starts from the default member initialisers; \<open>now\<close> is the time of parsing.\<close>

definition parse_txData :: "Env \<Rightarrow> int \<Rightarrow> string \<Rightarrow> Transaction option" where
  "parse_txData env now txData =
     (let txParts = getline_split CHR '':'' txData in
      if starts_with ''REG:'' txData then
        (if length txParts \<ge> 4 then
           (case stod env (txParts ! 3) of
              None \<Rightarrow> None
            | Some rep \<Rightarrow>
                Some ((Transaction_default REGISTRATION)
                        \<lparr> vehicleId_reg := txParts ! 1, publicKey := txParts ! 2,
                          initialReputation := rep, tx_timestamp := nat now \<rparr>))
         else None)
      else if starts_with ''EVT:'' txData then
        (if length txParts \<ge> 3 then
           Some ((Transaction_default EVENT_DECISION)
                   \<lparr> eventId_dec := txParts ! 1, eventVerdict := txParts ! 2,
                     tx_timestamp := nat now, eventType := ''Unknown'',
                     eventLocation := ''Unknown'', eventTimestamp := 0, eventCredibility := 0.0 \<rparr>)
         else None)
      else if starts_with ''REP:'' txData then
        (if length txParts \<ge> 4 then
           (case stod env (txParts ! 2) of
              None \<Rightarrow> None
            | Some oldRep \<Rightarrow>
                (case stod env (txParts ! 3) of
                   None \<Rightarrow> None
                 | Some newRep \<Rightarrow>
                     Some ((Transaction_default REPUTATION_UPDATE)
                             \<lparr> vehicleId_rep := txParts ! 1, oldReputation := oldRep,
                               newReputation := newRep, tx_timestamp := nat now,
                               eventId_rep := ''Unknown'' \<rparr>)))
         else None)
      else None)"

definition parse_txPart :: "Env \<Rightarrow> int \<Rightarrow> string \<Rightarrow> Transaction option" where
  "parse_txPart env now txPart =
     (if CHR '':'' \<notin> set txPart then None
      else
        let colonPos = length (takeWhile (\<lambda>c. c \<noteq> CHR '':'') txPart)
        in if length txPart \<le> colonPos + 1 then None
           else parse_txData env now (drop (colonPos + 1) txPart))"

text \<open>\<^verbatim>\<open>ParseTransactionBatch\<close>: the parts after the header, at most \<open>batchSize\<close> of them;
  a part that does not parse is skipped.\<close>

definition ParseTransactionBatch :: "Env \<Rightarrow> int \<Rightarrow> string \<Rightarrow> Transaction list" where
  "ParseTransactionBatch env now batchData =
     (let parts = getline_split CHR ''|'' batchData in
      if parts = [] \<or> \<not> starts_with ''BATCH:'' (hd parts) then []
      else if length (hd parts) \<le> 6 then []
      else case stoul (drop 6 (hd parts)) of
             None \<Rightarrow> []
           | Some batchSize \<Rightarrow> List.map_filter (parse_txPart env now) (take batchSize (tl parts)))"

text \<open>The wire form of a batch holding one transaction, as the parser reads it:
  the header \<^verbatim>\<open>BATCH:1\<close> and the part \<^verbatim>\<open>TX0:\<close> followed by the serialized transaction.\<close>

definition roundtrip :: "Env \<Rightarrow> int \<Rightarrow> Transaction \<Rightarrow> Transaction list" where
  "roundtrip env now tx = ParseTransactionBatch env now (''BATCH:1|TX0:'' @ serialize env tx)"

section \<open>Example data\<close>

text \<open>A fixed choice of the outside functions, a correctly signed report at the origin
  and a cluster there, for evaluating the definitions on concrete inputs.\<close>

definition sample_env :: Env where
  "sample_env =
     \<lparr> sha256_hex = (\<lambda>str. CHR ''#'' # str), fmt_double = (\<lambda>x. ''0''),
       fmt_fixed2 = (\<lambda>x. ''0''), to_string_double = (\<lambda>x. ''0''),
       stod = (\<lambda>str. Some 0), std_hash = length \<rparr>"


definition sample_report :: "string \<Rightarrow> string \<Rightarrow> string \<Rightarrow> EventReport" where
  "sample_report vid reported original =
     (let r = \<lparr> vehicleId = vid, reportedEventType = reported, originalEventType = original,
                 location = (0, 0, 0), report_timestamp = 0, signature = [], seqNum = 0,
                 receivedTime = 0 \<rparr>
      in r\<lparr>signature := expectedSignature sample_env r\<rparr>)"

definition sample_cluster :: "string \<Rightarrow> EventReport list \<Rightarrow> EventCluster" where
  "sample_cluster category rs =
     \<lparr> eventId = ''Evt_1'', cluster_eventType = category, centerLocation = (0, 0, 0),
       centerTime = 0, reports = rs, creationTime = 0, decisionMade = False \<rparr>"

text \<open>A validator that has registered the vehicles V1, V2 and V3 and holds one open
  cluster of category Accident with a report of V1.\<close>

definition sample_node :: VanetBlockchainApp where
  "sample_node =
     (VanetBlockchainApp_init sample_env)
       \<lparr> m_nodeType := RSU_VALIDATOR,
         m_vehicleKeys := [''V1'' \<mapsto> ''K1'', ''V2'' \<mapsto> ''K2'', ''V3'' \<mapsto> ''K3''],
         m_activeClusters :=
           [(''Evt_1'', sample_cluster ''Accident'' [sample_report ''V1'' ''Accident'' ''Accident''])] \<rparr>"

text \<open>The validator with the reputations of V1, V2 and V3 on its ledger.\<close>

definition sample_ledger :: "real \<Rightarrow> real \<Rightarrow> real \<Rightarrow> VanetBlockchainApp" where
  "sample_ledger r1 r2 r3 =
     sample_node\<lparr>m_vehicleReputations := [''V1'' \<mapsto> r1, ''V2'' \<mapsto> r2, ''V3'' \<mapsto> r3]\<rparr>"

text \<open>The validator RSU-1 of a network of four, freshly started, and a consensus round
  that has already counted the commit votes of RSU-0 and RSU-2 for a block.\<close>

definition sample_validator :: "Env \<Rightarrow> VanetBlockchainApp" where
  "sample_validator env =
     (SetRsuList (VanetBlockchainApp_init env) [''RSU-0'', ''RSU-1'', ''RSU-2'', ''RSU-3''])
       \<lparr> m_nodeName := ''RSU-1'', m_nodeType := RSU_VALIDATOR \<rparr>"

definition sample_block :: "string \<Rightarrow> string \<Rightarrow> VanetBlock" where
  "sample_block prev h =
     \<lparr> height = 1, block_timestamp = 0, previousHash = prev, blockHash = h,
       proposerId = ''RSU-0'', transactions = [], consensusSignatures = [] \<rparr>"


text \<open>A ledger with reputations and histories on it, and the ledger of a validator that
  has appended a block registering the vehicle V9 with the initial reputation \<open>-1\<close>.\<close>

definition sample_history_node :: VanetBlockchainApp where
  "sample_history_node =
     sample_node\<lparr>m_vehicleReputations := [''V1'' \<mapsto> 3 / 4, ''V2'' \<mapsto> 1 / 4],
                 m_vehicleReportHistory := [''V1'' \<mapsto> [1, 1], ''V2'' \<mapsto> [0, 1]]\<rparr>"

definition negative_ledger :: VanetBlockchainApp where
  "negative_ledger =
     AddBlockToChain sample_node
       ((sample_block (blockHash (genesisBlock sample_env)) ''h1'')
          \<lparr>transactions :=
             [(Transaction_default REGISTRATION)
                \<lparr>vehicleId_reg := ''V9'', publicKey := ''K9'', initialReputation := - 1\<rparr>]\<rparr>)"

text \<open>A string that is neither the content hash of the block \<open>b\<close> nor the hash of the
  genesis block: it is longer than both.\<close>

definition other_hash :: "Env \<Rightarrow> VanetBlock \<Rightarrow> string" where
  "other_hash env b = CHR ''x'' # calculateHash env b @ blockHash (genesisBlock env)"

text \<open>Chain linkage: every block but the first names the hash of the block before it.\<close>

definition chain_linked :: "VanetBlock list \<Rightarrow> bool" where
  "chain_linked chain =
     (\<forall>i. Suc i < length chain \<longrightarrow> previousHash (chain ! Suc i) = blockHash (chain ! i))"

section \<open>Reputation bounds\<close>

lemma newReputation_of_bounds: "0 \<le> newReputation_of a b r c \<and> newReputation_of a b r c \<le> 1"
  by (simp add: newReputation_of_def Let_def)

lemma update_one_bounded:
  "reputations_bounded s \<Longrightarrow> reputations_bounded (update_one now eid gt s r)"
  using newReputation_of_bounds
  by (simp add: reputations_bounded_def update_one_def Let_def InitiateReputationUpdate_def
      ForwardTransactionToLeader_def UpdateLocalHistory_def)

lemma foldl_update_one_bounded:
  "reputations_bounded s \<Longrightarrow> reputations_bounded (foldl (update_one now eid gt) s rs)"
  by (induction rs arbitrary: s) (simp_all add: update_one_bounded)


text \<open>
  C3. One update stores \<open>oldRep + alpha * (1 - oldRep)\<close> for a correct report and
  \<open>oldRep - beta * oldRep\<close> for an incorrect one, clamped to [0,1] (where the old
  reputation of an unknown vehicle is 0.5); and whatever the cluster, the verdict and the
  winning label are, \<^verbatim>\<open>UpdateReputations\<close> keeps every stored reputation in [0,1].
\<close>

theorem UpdateReputations_keeps_bounds:
  assumes "reputations_bounded s"
  shows "reputations_bounded (UpdateReputations now s cluster verdict groundTruth) \<and>
         m_vehicleReputations (update_one now eid groundTruth s report) (vehicleId report) =
           Some (let oldRep = (case m_vehicleReputations s (vehicleId report) of
                                 Some r \<Rightarrow> r | None \<Rightarrow> 0.5)
                 in max 0 (min 1 (if reportedEventType report = groundTruth
                                  then oldRep + m_alpha s * (1 - oldRep)
                                  else oldRep - m_beta s * oldRep)))"
proof
  show "reputations_bounded (UpdateReputations now s cluster verdict groundTruth)"
    using assms by (simp add: UpdateReputations_def foldl_update_one_bounded)
next
  show "m_vehicleReputations (update_one now eid groundTruth s report) (vehicleId report) =
           Some (let oldRep = (case m_vehicleReputations s (vehicleId report) of
                                 Some r \<Rightarrow> r | None \<Rightarrow> 0.5)
                 in max 0 (min 1 (if reportedEventType report = groundTruth
                                  then oldRep + m_alpha s * (1 - oldRep)
                                  else oldRep - m_beta s * oldRep)))"
    by (simp add: update_one_def Let_def InitiateReputationUpdate_def
        ForwardTransactionToLeader_def UpdateLocalHistory_def newReputation_of_def)
qed

theorem UpdateReputations_keeps_bounds_witness:
  "reputations_bounded
     ((VanetBlockchainApp_init sample_env)\<lparr>m_vehicleReputations := [''V1'' \<mapsto> 0.5]\<rparr>) \<and>
   reputations_bounded
     (UpdateReputations 0
        ((VanetBlockchainApp_init sample_env)\<lparr>m_vehicleReputations := [''V1'' \<mapsto> 0.5]\<rparr>)
        (sample_cluster ''Accident'' [sample_report ''V1'' ''Accident'' ''Accident''])
        ''VALIDATED'' ''Accident'') \<and>
   m_vehicleReputations
     (update_one 0 ''Evt_1'' ''Accident''
        ((VanetBlockchainApp_init sample_env)\<lparr>m_vehicleReputations := [''V1'' \<mapsto> 0.5]\<rparr>)
        (sample_report ''V1'' ''Accident'' ''Accident'')) ''V1'' = Some 0.525"
proof -
  have h: "reputations_bounded
     ((VanetBlockchainApp_init sample_env)\<lparr>m_vehicleReputations := [''V1'' \<mapsto> 0.5]\<rparr>)"
    by (simp add: reputations_bounded_def)
  show ?thesis
    using h UpdateReputations_keeps_bounds [OF h, of 0
        "sample_cluster ''Accident'' [sample_report ''V1'' ''Accident'' ''Accident'']"
        "''VALIDATED''" "''Accident''" "''Evt_1''" "sample_report ''V1'' ''Accident'' ''Accident''"]
    by (simp add: sample_report_def VanetBlockchainApp_init_def)
qed

section \<open>Reputation query\<close>

text \<open>
  C7, as the code has it. The query answers with the stored reputation of a recorded
  vehicle, which lies in [0,1] whenever every stored reputation does, and with \<open>-1\<close>
  for a vehicle without a record.
\<close>

theorem HandleReputationRequest_answer:
  "(m_vehicleReputations s vid = None \<longrightarrow> HandleReputationRequest s vid = - 1) \<and>
   (reputations_bounded s \<and> m_vehicleReputations s vid \<noteq> None \<longrightarrow>
      m_vehicleReputations s vid = Some (HandleReputationRequest s vid) \<and>
      0 \<le> HandleReputationRequest s vid \<and> HandleReputationRequest s vid \<le> 1)"
  by (auto simp: HandleReputationRequest_def reputations_bounded_def)

theorem HandleReputationRequest_answer_witness:
  "m_vehicleReputations
     ((VanetBlockchainApp_init sample_env)\<lparr>m_vehicleReputations := [''V1'' \<mapsto> 0.5]\<rparr>) ''V2'' = None \<and>
   HandleReputationRequest
     ((VanetBlockchainApp_init sample_env)\<lparr>m_vehicleReputations := [''V1'' \<mapsto> 0.5]\<rparr>) ''V2'' = - 1 \<and>
   reputations_bounded
     ((VanetBlockchainApp_init sample_env)\<lparr>m_vehicleReputations := [''V1'' \<mapsto> 0.5]\<rparr>) \<and>
   HandleReputationRequest
     ((VanetBlockchainApp_init sample_env)\<lparr>m_vehicleReputations := [''V1'' \<mapsto> 0.5]\<rparr>) ''V1'' = 0.5"
  using HandleReputationRequest_answer
      [of "(VanetBlockchainApp_init sample_env)\<lparr>m_vehicleReputations := [''V1'' \<mapsto> 0.5]\<rparr>" "''V2''"]
    HandleReputationRequest_answer
      [of "(VanetBlockchainApp_init sample_env)\<lparr>m_vehicleReputations := [''V1'' \<mapsto> 0.5]\<rparr>" "''V1''"]
  by (simp add: reputations_bounded_def)

text \<open>The query as the claim words it (a value in [0,1], and 0.5 for an unknown vehicle)
  fails on a node that has recorded nothing.\<close>

theorem HandleReputationRequest_unknown_counterexample:
  "HandleReputationRequest (VanetBlockchainApp_init sample_env) ''V1'' \<noteq> 0.5 \<and>
   \<not> (0 \<le> HandleReputationRequest (VanetBlockchainApp_init sample_env) ''V1'' \<and>
      HandleReputationRequest (VanetBlockchainApp_init sample_env) ''V1'' \<le> 1)"
  by (simp add: HandleReputationRequest_def VanetBlockchainApp_init_def)

section \<open>Suspicion score\<close>

lemma rpf_fold_zero:
  assumes "\<forall>i\<in>set js. history ! i = 0"
  shows "fst (foldl (\<lambda>(numerator_rpf, denominator_rpf) i.
              let weight = DECAY_GAMMA ^ (length history - 1 - i)
              in (numerator_rpf + real_of_int (history ! i) * weight, denominator_rpf + weight))
           (n, d) js) = n \<and>
         (if js = [] then d else d + DECAY_GAMMA ^ (length history - 1 - hd js)) \<le>
         snd (foldl (\<lambda>(numerator_rpf, denominator_rpf) i.
              let weight = DECAY_GAMMA ^ (length history - 1 - i)
              in (numerator_rpf + real_of_int (history ! i) * weight, denominator_rpf + weight))
           (n, d) js)"
  using assms
proof (induction js arbitrary: n d)
  case Nil
  then show ?case by simp
next
  case (Cons j js)
  have pos: "0 \<le> DECAY_GAMMA ^ k" for k
    by (simp add: DECAY_GAMMA_def)
  from Cons.prems have tl: "\<forall>i\<in>set js. history ! i = 0" and hd: "history ! j = 0"
    by simp_all
  note ih = Cons.IH [OF tl, of n "d + DECAY_GAMMA ^ (length history - 1 - j)"]
  show ?case
  proof (cases js)
    case Nil
    then show ?thesis using hd by (simp add: Let_def)
  next
    case (Cons j' js')
    then show ?thesis
      using ih hd pos [of "length history - 1 - j'"] by (simp add: Let_def)
  qed
qed

lemma rpf_loop_all_zero:
  assumes "\<forall>x\<in>set history. x = 0" and "history \<noteq> []"
  shows "fst (rpf_loop history) = 0 \<and> 0 < snd (rpf_loop history)"
proof -
  have idx: "\<forall>i\<in>set [0..<length history]. history ! i = 0"
    using assms(1) by simp
  have ne: "[0..<length history] \<noteq> []"
    using assms(2) by simp
  have gpos: "0 < DECAY_GAMMA ^ k" for k
    by (simp add: DECAY_GAMMA_def)
  from rpf_fold_zero [OF idx, of 0 0] ne
  show ?thesis
    unfolding rpf_loop_def
    using gpos [of "length history - 1 - hd [0..<length history]"] by auto
qed

lemma RPF_all_zero:
  assumes "\<forall>x\<in>set history. x = 0" and "history \<noteq> []"
  shows "RPF history = 0"
  using rpf_loop_all_zero [OF assms]
  by (auto simp: RPF_def split: prod.splits)

lemma volatility_fold_zero:
  assumes "\<forall>i\<in>set js. history ! i = history ! (i - 1)"
  shows "foldl (\<lambda>acc i. acc + real_of_int \<bar>history ! i - history ! (i - 1)\<bar>) a js = a"
  using assms by (induction js arbitrary: a) simp_all

lemma F_vol_all_zero:
  assumes "\<forall>x\<in>set history. x = 0"
  shows "F_vol history = 0"
proof -
  have "\<forall>i\<in>set [1..<length history]. history ! i = history ! (i - 1)"
    using assms by (auto simp: all_set_conv_all_nth)
  then have "volatility_sum history = 0"
    unfolding volatility_sum_def by (rule volatility_fold_zero)
  then show ?thesis by (simp add: F_vol_def)
qed

text \<open>
  C8. A vehicle whose history holds only incorrect (0) outcomes and has at least N entries
  has RPF = 0 and a suspicion score of at least \<open>w\<^sub>1\<close>; a vehicle with no history, or an
  empty one, has suspicion 0.
\<close>

theorem suspicion_all_incorrect_history:
  "(m_vehicleReportHistory s vid = Some history \<and> (\<forall>x\<in>set history. x = 0) \<and>
      HISTORY_WINDOW_N \<le> length history
      \<longrightarrow> RPF history = 0 \<and> WEIGHT_RPF \<le> CalculateSuspicionScore s vid) \<and>
   (m_vehicleReportHistory s vid = None \<or> m_vehicleReportHistory s vid = Some []
      \<longrightarrow> CalculateSuspicionScore s vid = 0)"
proof (intro conjI impI)
  assume h: "m_vehicleReportHistory s vid = Some history \<and> (\<forall>x\<in>set history. x = 0) \<and>
      HISTORY_WINDOW_N \<le> length history"
  then have ne: "history \<noteq> []"
    by (auto simp: HISTORY_WINDOW_N_def)
  from h show "RPF history = 0"
    using RPF_all_zero ne by blast
  from h have "RPF history = 0" "F_vol history = 0"
    using RPF_all_zero F_vol_all_zero ne by blast+
  with h ne show "WEIGHT_RPF \<le> CalculateSuspicionScore s vid"
    by (simp add: CalculateSuspicionScore_def)
next
  assume "m_vehicleReportHistory s vid = None \<or> m_vehicleReportHistory s vid = Some []"
  then show "CalculateSuspicionScore s vid = 0"
    by (auto simp: CalculateSuspicionScore_def)
qed

theorem suspicion_all_incorrect_history_witness:
  "m_vehicleReportHistory
     ((VanetBlockchainApp_init sample_env)\<lparr>m_vehicleReportHistory := [''V1'' \<mapsto> replicate 20 0]\<rparr>)
     ''V1'' = Some (replicate 20 0) \<and>
   set (replicate 20 (0::int)) = {0} \<and>
   HISTORY_WINDOW_N \<le> length (replicate 20 (0::int)) \<and>
   RPF (replicate 20 0) = 0 \<and>
   WEIGHT_RPF \<le> CalculateSuspicionScore
     ((VanetBlockchainApp_init sample_env)\<lparr>m_vehicleReportHistory := [''V1'' \<mapsto> replicate 20 0]\<rparr>) ''V1'' \<and>
   m_vehicleReportHistory
     ((VanetBlockchainApp_init sample_env)\<lparr>m_vehicleReportHistory := [''V1'' \<mapsto> replicate 20 0]\<rparr>)
     ''V2'' = None \<and>
   CalculateSuspicionScore
     ((VanetBlockchainApp_init sample_env)\<lparr>m_vehicleReportHistory := [''V1'' \<mapsto> replicate 20 0]\<rparr>) ''V2'' = 0"
  using suspicion_all_incorrect_history
      [of "(VanetBlockchainApp_init sample_env)\<lparr>m_vehicleReportHistory := [''V1'' \<mapsto> replicate 20 0]\<rparr>"
          "''V1''" "replicate 20 0"]
    suspicion_all_incorrect_history
      [of "(VanetBlockchainApp_init sample_env)\<lparr>m_vehicleReportHistory := [''V1'' \<mapsto> replicate 20 0]\<rparr>"
          "''V2''" "[]"]
  by (simp add: HISTORY_WINDOW_N_def)

section \<open>Rounding to binary64\<close>

text \<open>Rounding to binary64, evaluated: a number scaled by \<open>2\<^sup>k\<close> into
  \<open>[2\<^sup>5\<^sup>2, 2\<^sup>5\<^sup>3)\<close> is rounded to an integer there; a natural number below \<open>2\<^sup>5\<^sup>3\<close> is a
  double.\<close>

lemma round_half_even_of_int: "round_half_even (of_int k) = k"
  by (simp add: round_half_even_def)

lemma binary64_scaled:
  assumes "2 ^ 52 \<le> \<bar>x\<bar> * 2 ^ k" and "\<bar>x\<bar> * 2 ^ k < 2 ^ 53" and "k \<le> 1074"
  shows "binary64 x = of_int (round_half_even (x * 2 ^ k)) / 2 ^ k"
proof -
  have x0: "x \<noteq> 0" using assms(1) by auto
  have pos: "0 < \<bar>x\<bar>" using x0 by simp
  have p: "(2::real) powr of_int (52 - int k) = 2 ^ 52 / 2 ^ k"
    by (simp add: powr_diff powr_realpow)
  have p1: "(2::real) powr of_int (52 - int k + 1) = 2 ^ 53 / 2 ^ k"
    by (simp add: powr_diff powr_add powr_realpow)
  have lo: "2 powr of_int (52 - int k) \<le> \<bar>x\<bar>"
    unfolding p using assms(1) by (simp add: field_simps)
  have hi: "\<bar>x\<bar> < 2 powr of_int (52 - int k + 1)"
    unfolding p1 using assms(2) by (simp add: field_simps)
  have fl: "\<lfloor>log 2 \<bar>x\<bar>\<rfloor> = 52 - int k"
    using lo hi pos by (subst floor_log_eq_powr_iff) auto
  have e: "max \<lfloor>log 2 \<bar>x\<bar>\<rfloor> (- 1022) = 52 - int k"
    unfolding fl using assms(3) by simp
  have q: "(2::real) powr of_int (52 - int k - 52) = 1 / 2 ^ k"
    by (simp add: powr_minus powr_realpow field_simps)
  show ?thesis
    unfolding binary64_def Let_def e q using x0 by simp
qed

lemma binary64_0: "binary64 0 = 0"
  by (simp add: binary64_def)

lemma binary64_exact:
  assumes "2 ^ 52 \<le> \<bar>x\<bar> * 2 ^ k" and "\<bar>x\<bar> * 2 ^ k < 2 ^ 53" and "k \<le> 1074"
    and "x * 2 ^ k = of_int i"
  shows "binary64 x = x"
proof -
  have "binary64 x = of_int (round_half_even (x * 2 ^ k)) / 2 ^ k"
    using assms(1-3) by (rule binary64_scaled)
  also have "\<dots> = x" unfolding assms(4) round_half_even_of_int
    using assms(4) [symmetric] by simp
  finally show ?thesis .
qed

lemma scale_exists:
  fixes x :: real
  assumes "1 \<le> x" and "x < 2 ^ 53"
  shows "\<exists>k\<le>52. 2 ^ 52 \<le> x * 2 ^ k \<and> x * 2 ^ k < 2 ^ 53"
proof -
  define e where "e = nat \<lfloor>log 2 x\<rfloor>"
  have l0: "0 \<le> log 2 x" using assms(1) by simp
  have fl: "\<lfloor>log 2 x\<rfloor> = int e" using l0 by (simp add: e_def)
  have x0: "0 < x" using assms(1) by simp
  from fl have "2 powr real_of_int (int e) \<le> x \<and> x < 2 powr real_of_int (int e + 1)"
    using x0 by (subst (asm) floor_log_eq_powr_iff) auto
  then have lo: "2 ^ e \<le> x" and hi: "x < 2 ^ (e + 1)"
    by (simp_all add: powr_realpow powr_add)
  have "(2::real) ^ e < 2 ^ 53" using lo assms(2) by simp
  then have "e < 53" by (rule power_less_imp_less_exp [rotated]) simp
  then have e52: "e \<le> 52" by simp
  have s: "(2::real) ^ e * 2 ^ (52 - e) = 2 ^ 52" "(2::real) ^ (e + 1) * 2 ^ (52 - e) = 2 ^ 53"
    using e52 by (simp_all add: power_add [symmetric])
  have "2 ^ 52 \<le> x * 2 ^ (52 - e)"
    using lo s(1) by (metis mult_right_mono zero_le_numeral zero_le_power)
  moreover have "x * 2 ^ (52 - e) < 2 ^ 53"
    using hi s(2) by (metis mult_strict_right_mono zero_less_numeral zero_less_power)
  ultimately show ?thesis by (intro exI [of _ "52 - e"]) simp
qed

lemma binary64_of_nat:
  assumes "n < 2 ^ 53"
  shows "binary64 (real n) = real n"
proof (cases "n = 0")
  case True
  then show ?thesis by (simp add: binary64_0)
next
  case False
  then have "1 \<le> real n" by simp
  moreover have "real n < 2 ^ 53" using assms by (metis of_nat_less_iff of_nat_numeral of_nat_power)
  ultimately obtain k where k: "k \<le> 52" "2 ^ 52 \<le> real n * 2 ^ k" "real n * 2 ^ k < 2 ^ 53"
    using scale_exists by blast
  show ?thesis
    by (rule binary64_exact [where k = k and i = "int (n * 2 ^ k)"]) (use k in simp_all)
qed

lemma binary64_1: "binary64 1 = 1"
  using binary64_of_nat [of 1] by simp

lemma binary64_minus_1: "binary64 (- 1) = - 1"
  by (subst binary64_scaled [where k = 52]) (simp_all add: round_half_even_def)

lemma binary64_dyadic:
  "binary64 (1 / 2) = 1 / 2" "binary64 (3 / 2) = 3 / 2" "binary64 2 = 2"
  "binary64 (3 / 4) = 3 / 4" "binary64 (1 / 4) = 1 / 4"
  by (subst binary64_scaled [where k = 53], simp_all add: round_half_even_def)
     (subst binary64_scaled [where k = 52], simp_all add: round_half_even_def,
      subst binary64_scaled [where k = 51], simp_all add: round_half_even_def,
      subst binary64_scaled [where k = 53], simp_all add: round_half_even_def,
      subst binary64_scaled [where k = 54], simp_all add: round_half_even_def)

lemma binary64_literals:
  "binary64 (1 / 1000000) = 4722366482869645 / 4722366482869645213696"
  "binary64 (7 / 10) = 3152519739159347 / 4503599627370496"
  by (subst binary64_scaled [where k = 72], simp_all add: round_half_even_def)
     (subst binary64_scaled [where k = 53], simp_all add: round_half_even_def)

lemma binary64_fp_fields:
  "fp_round binary64_fp x = binary64 x" "fp_pow binary64_fp x n = binary64 (x ^ n)"
  by (simp_all add: binary64_fp_def)

text \<open>With exact arithmetic as the parameter, the functions in doubles are the idealised
  ones.\<close>

lemma exact_arith_fields:
  "fp_round exact_arith = (\<lambda>x. x)" "fp_pow exact_arith = (\<lambda>x n. x ^ n)"
  by (simp_all add: exact_arith_def)

lemma suspicion_exact:
  "rpf_loop_d exact_arith h = rpf_loop h" "RPF_d exact_arith h = RPF h"
  "volatility_sum_d exact_arith h = volatility_sum h" "F_vol_d exact_arith h = F_vol h"
  "CalculateSuspicionScore_d exact_arith s vid = CalculateSuspicionScore s vid"
  unfolding rpf_loop_d_def rpf_loop_def RPF_d_def RPF_def volatility_sum_d_def
      volatility_sum_def F_vol_d_def F_vol_def CalculateSuspicionScore_d_def
      CalculateSuspicionScore_def exact_arith_fields
  by (rule refl)+

lemma update_exact:
  "newReputation_of_d exact_arith a b r c = newReputation_of a b r c"
  "update_one_d exact_arith now eid gt s rep = update_one now eid gt s rep"
  "UpdateReputations_d exact_arith now s cluster v gt = UpdateReputations now s cluster v gt"
  unfolding UpdateReputations_d_def UpdateReputations_def update_one_d_def update_one_def
    newReputation_of_d_def newReputation_of_def exact_arith_fields
  by (rule refl)+

lemma credibility_exact:
  "trust_factor_d exact_arith s vid = trust_factor s vid"
  "raw_trust_d exact_arith s rs = raw_trust s rs"
  "norm_trust_d exact_arith m lo hi rs = norm_trust m lo hi rs"
  "sumT_supporters_d exact_arith n rs claim = sumT_supporters n rs claim"
  "claimConfidence_d exact_arith s rs = claimConfidence s rs"
  unfolding claimConfidence_d_def claimConfidence_def sumT_supporters_d_def sumT_supporters_def
    norm_trust_d_def norm_trust_def norm_trust_step_d_def norm_trust_step_def
    T_norm_of_d_def T_norm_of_def raw_trust_d_def raw_trust_def raw_trust_step_d_def
    raw_trust_step_def trust_factor_d_def trust_factor_def suspicion_exact exact_arith_fields
  by (rule refl)+

section \<open>Adaptive batch size\<close>















section \<open>Serialize and parse\<close>

lemma getline_split_delim:
  assumes "d \<notin> set a"
  shows "getline_split d (a @ d # rest) = a # getline_split d rest"
proof -
  have t: "takeWhile (\<lambda>c. c \<noteq> d) (a @ d # rest) = a"
    using assms by (induction a) auto
  have dr: "dropWhile (\<lambda>c. c \<noteq> d) (a @ d # rest) = d # rest"
    using assms by (induction a) auto
  show ?thesis
    by (subst getline_split.simps) (simp only: t dr, simp)
qed

lemma getline_split_last:
  assumes "d \<notin> set a" and "a \<noteq> []"
  shows "getline_split d a = [a]"
proof -
  have t: "takeWhile (\<lambda>c. c \<noteq> d) a = a"
    using assms(1) by (induction a) auto
  have dr: "dropWhile (\<lambda>c. c \<noteq> d) a = []"
    using assms(1) by (induction a) auto
  show ?thesis
    using assms(2) by (subst getline_split.simps) (simp only: t dr, simp)
qed

lemma stoul_one: "stoul ''1'' = Some 1"
  by (simp add: stoul_def is_space_def is_digit_def digits_value_def Let_def)

lemma parse_txData_EVT:
  assumes "CHR '':'' \<notin> set eid" and "CHR '':'' \<notin> set v" and "v \<noteq> []"
  shows "parse_txData env now (''EVT:'' @ eid @ '':'' @ v) =
     Some ((Transaction_default EVENT_DECISION)
                   \<lparr> eventId_dec := eid, eventVerdict := v,
                     tx_timestamp := nat now, eventType := ''Unknown'',
                     eventLocation := ''Unknown'', eventTimestamp := 0, eventCredibility := 0 \<rparr>)"
proof -
  have "getline_split CHR '':'' (''EVT'' @ CHR '':'' # (eid @ CHR '':'' # v)) =
          ''EVT'' # getline_split CHR '':'' (eid @ CHR '':'' # v)"
    by (rule getline_split_delim) simp
  also have "getline_split CHR '':'' (eid @ CHR '':'' # v) = eid # getline_split CHR '':'' v"
    using assms(1) by (rule getline_split_delim)
  also have "getline_split CHR '':'' v = [v]"
    using assms(2,3) by (rule getline_split_last)
  finally have parts: "getline_split CHR '':'' (''EVT:'' @ eid @ '':'' @ v) = [''EVT'', eid, v]"
    by simp
  show ?thesis
    unfolding parse_txData_def parts Let_def
    by (simp add: starts_with_def)
qed

lemma parse_txPart_TX0:
  assumes "txData \<noteq> []"
  shows "parse_txPart env now (CHR ''T'' # CHR ''X'' # CHR ''0'' # CHR '':'' # txData) =
         parse_txData env now txData"
  using assms by (simp add: parse_txPart_def Let_def)


lemma batch_parts:
  assumes "CHR ''|'' \<notin> set payload" and "payload \<noteq> []"
  shows "getline_split CHR ''|'' (''BATCH:1|TX0:'' @ payload) = [''BATCH:1'', ''TX0:'' @ payload]"
proof -
  have "getline_split CHR ''|'' (''BATCH:1'' @ CHR ''|'' # (''TX0:'' @ payload)) =
          ''BATCH:1'' # getline_split CHR ''|'' (''TX0:'' @ payload)"
    by (rule getline_split_delim) simp
  also have "getline_split CHR ''|'' (''TX0:'' @ payload) = [''TX0:'' @ payload]"
    using assms(1) by (intro getline_split_last) simp_all
  finally show ?thesis by simp
qed

lemma roundtrip_payload:
  assumes "CHR ''|'' \<notin> set (serialize env tx)" and "serialize env tx \<noteq> []"
  shows "roundtrip env now tx = List.map_filter (parse_txData env now) [serialize env tx]"
  unfolding roundtrip_def ParseTransactionBatch_def batch_parts [OF assms] Let_def
  using assms(2)
  by (simp add: starts_with_def stoul_one parse_txPart_TX0 List.map_filter_simps split: option.split)

lemma getline_split_Nil: "getline_split d [] = []"
  by (subst getline_split.simps) simp

lemma getline_split_Cons:
  "getline_split d (c # cs) =
     (if c = d then [] # getline_split d cs
      else (case getline_split d cs of [] \<Rightarrow> [c] # [] | p # ps \<Rightarrow> (c # p) # ps))"
proof (cases "c = d")
  case True
  then show ?thesis by (subst getline_split.simps) simp
next
  case False
  show ?thesis
  proof (cases cs)
    case Nil
    with False show ?thesis
      by (subst getline_split.simps) (simp add: getline_split_Nil)
  next
    case (Cons a as)
    with False show ?thesis
      by (subst getline_split.simps, subst (2) getline_split.simps) simp
  qed
qed

text \<open>
  C10, as the code has it. For an EVENT_DECISION transaction whose event id and verdict
  hold neither \<open>:\<close> nor \<open>|\<close> and whose verdict is not empty, serializing and parsing
  gives one transaction with the same event id and verdict, the time of parsing as its
  timestamp, event type and location \<open>Unknown\<close>, event timestamp and credibility 0 and
  no supporting reports; so the original does not come back as soon as it differs in one
  of these fields.
\<close>

theorem roundtrip_EVENT_DECISION:
  assumes "tx_type tx = EVENT_DECISION"
      and "CHR '':'' \<notin> set (eventId_dec tx)" and "CHR ''|'' \<notin> set (eventId_dec tx)"
      and "CHR '':'' \<notin> set (eventVerdict tx)" and "CHR ''|'' \<notin> set (eventVerdict tx)"
      and "eventVerdict tx \<noteq> []"
  shows "roundtrip env now tx =
           [(Transaction_default EVENT_DECISION)
              \<lparr> eventId_dec := eventId_dec tx, eventVerdict := eventVerdict tx,
                tx_timestamp := nat now, eventType := ''Unknown'',
                eventLocation := ''Unknown'', eventTimestamp := 0, eventCredibility := 0 \<rparr>] \<and>
         (eventType tx \<noteq> ''Unknown'' \<or> eventLocation tx \<noteq> ''Unknown'' \<or>
          eventTimestamp tx \<noteq> 0 \<or> eventCredibility tx \<noteq> 0 \<or> eventReports tx \<noteq> []
          \<longrightarrow> roundtrip env now tx \<noteq> [tx])"
proof -
  have ser: "serialize env tx = ''EVT:'' @ eventId_dec tx @ '':'' @ eventVerdict tx"
    using assms(1) by (simp add: serialize_def)
  have nobar: "CHR ''|'' \<notin> set (serialize env tx)" and ne: "serialize env tx \<noteq> []"
    using assms(3,5) by (simp_all add: ser)
  have eq: "roundtrip env now tx =
           [(Transaction_default EVENT_DECISION)
              \<lparr> eventId_dec := eventId_dec tx, eventVerdict := eventVerdict tx,
                tx_timestamp := nat now, eventType := ''Unknown'',
                eventLocation := ''Unknown'', eventTimestamp := 0, eventCredibility := 0 \<rparr>]"
    unfolding roundtrip_payload [OF nobar ne] ser
    using parse_txData_EVT [OF assms(2,4,6), of env now]
    by (simp add: List.map_filter_simps del: append.simps)
  define r where "r = (Transaction_default EVENT_DECISION)
              \<lparr> eventId_dec := eventId_dec tx, eventVerdict := eventVerdict tx,
                tx_timestamp := nat now, eventType := ''Unknown'',
                eventLocation := ''Unknown'', eventTimestamp := 0, eventCredibility := 0 \<rparr>"
  have r: "eventType r = ''Unknown''" "eventLocation r = ''Unknown''" "eventTimestamp r = 0"
    "eventCredibility r = 0" "eventReports r = []"
    by (simp_all add: r_def Transaction_default_def)
  have "roundtrip env now tx \<noteq> [tx]"
    if "eventType tx \<noteq> ''Unknown'' \<or> eventLocation tx \<noteq> ''Unknown'' \<or>
          eventTimestamp tx \<noteq> 0 \<or> eventCredibility tx \<noteq> 0 \<or> eventReports tx \<noteq> []"
  proof
    assume "roundtrip env now tx = [tx]"
    with eq have "r = tx" by (simp add: r_def)
    with r that show False by auto
  qed
  with eq show ?thesis by blast
qed

theorem roundtrip_EVENT_DECISION_witness: "roundtrip sample_env 5
     ((Transaction_default EVENT_DECISION)
        \<lparr> eventId_dec := ''Evt_1'', eventType := ''Accident'', eventVerdict := ''VALIDATED'',
          eventCredibility := 0.75 \<rparr>) =
     [(Transaction_default EVENT_DECISION)
        \<lparr> eventId_dec := ''Evt_1'', eventVerdict := ''VALIDATED'', tx_timestamp := 5,
          eventType := ''Unknown'', eventLocation := ''Unknown'' \<rparr>] \<and>
   roundtrip sample_env 5
     ((Transaction_default EVENT_DECISION)
        \<lparr> eventId_dec := ''Evt_1'', eventType := ''Accident'', eventVerdict := ''VALIDATED'',
          eventCredibility := 0.75 \<rparr>) \<noteq>
     [(Transaction_default EVENT_DECISION)
        \<lparr> eventId_dec := ''Evt_1'', eventType := ''Accident'', eventVerdict := ''VALIDATED'',
          eventCredibility := 0.75 \<rparr>]"
  using roundtrip_EVENT_DECISION [of "(Transaction_default EVENT_DECISION)
        \<lparr> eventId_dec := ''Evt_1'', eventType := ''Accident'', eventVerdict := ''VALIDATED'',
          eventCredibility := 0.75 \<rparr>" sample_env 5]
  by (simp add: Transaction_default_def)

text \<open>An event id with a colon comes back cut at the colon, with the rest of it as the
  verdict; a transaction with an empty verdict does not come back at all.\<close>

theorem roundtrip_delimiter_counterexample: "map eventId_dec (roundtrip sample_env 5
     ((Transaction_default EVENT_DECISION) \<lparr> eventId_dec := ''Evt:1'', eventVerdict := ''VALIDATED'' \<rparr>)) = [''Evt''] \<and>
   map eventVerdict (roundtrip sample_env 5
     ((Transaction_default EVENT_DECISION) \<lparr> eventId_dec := ''Evt:1'', eventVerdict := ''VALIDATED'' \<rparr>)) = [''1''] \<and>
   roundtrip sample_env 5
     ((Transaction_default EVENT_DECISION) \<lparr> eventId_dec := ''Evt_1'', eventVerdict := [] \<rparr>) = []"
  by (simp add: roundtrip_def ParseTransactionBatch_def serialize_def Transaction_default_def
      getline_split_Nil getline_split_Cons starts_with_def stoul_one parse_txPart_def
      parse_txData_def List.map_filter_simps Let_def)

section \<open>Joining and opening clusters\<close>




lemma ScheduleClusterCheck_clusters:
  "m_activeClusters (ScheduleClusterCheck s eid) = m_activeClusters s"
  by (simp add: ScheduleClusterCheck_def split: option.splits)



lemma sample_report_fields:
  "location (sample_report a b c) = (0, 0, 0)" "report_timestamp (sample_report a b c) = 0"
  "originalEventType (sample_report a b c) = c" "reportedEventType (sample_report a b c) = b"
  "vehicleId (sample_report a b c) = a"
  by (simp_all add: sample_report_def Let_def)









lemma sample_cluster_fields:
  "decisionMade (sample_cluster x rs) = False" "cluster_eventType (sample_cluster x rs) = x"
  "centerLocation (sample_cluster x rs) = (0, 0, 0)" "centerTime (sample_cluster x rs) = 0"
  "reports (sample_cluster x rs) = rs"
  by (simp_all add: sample_cluster_def)



section \<open>Commit quorum\<close>


lemma apply_tx_fields:
  "m_localBlockchain (apply_tx s tx) = m_localBlockchain s"
  "m_pbftActiveConsensus (apply_tx s tx) = m_pbftActiveConsensus s"
  "m_f_rsus (apply_tx s tx) = m_f_rsus s"
  by (simp_all add: apply_tx_def)

lemma foldl_apply_tx_fields:
  "m_localBlockchain (foldl apply_tx s txs) = m_localBlockchain s"
  "m_pbftActiveConsensus (foldl apply_tx s txs) = m_pbftActiveConsensus s"
  "m_f_rsus (foldl apply_tx s txs) = m_f_rsus s"
  by (induction txs arbitrary: s) (simp_all add: apply_tx_fields)

lemma AddBlockToChain_chain:
  "m_localBlockchain (AddBlockToChain s b) =
     (if previousHash b = blockHash (last (m_localBlockchain s)) \<and>
         blockHash b \<notin> blockHash ` set (m_localBlockchain s)
      then m_localBlockchain s @ [b] else m_localBlockchain s)"
  by (auto simp: AddBlockToChain_def foldl_apply_tx_fields intro: rev_image_eqI)

lemma AddBlockToChain_fields:
  "m_pbftActiveConsensus (AddBlockToChain s b) = m_pbftActiveConsensus s"
  "m_f_rsus (AddBlockToChain s b) = m_f_rsus s"
  by (simp_all add: AddBlockToChain_def foldl_apply_tx_fields)

lemma AddBlockToChain_linked:
  assumes "chain_linked (m_localBlockchain s)" and "m_localBlockchain s \<noteq> []"
  shows "chain_linked (m_localBlockchain (AddBlockToChain s b))"
proof (cases "previousHash b = blockHash (last (m_localBlockchain s)) \<and>
         blockHash b \<notin> blockHash ` set (m_localBlockchain s)")
  case False
  then show ?thesis using assms(1) by (auto simp: AddBlockToChain_chain)
next
  case True
  let ?c = "m_localBlockchain s"
  have "previousHash ((?c @ [b]) ! Suc i) = blockHash ((?c @ [b]) ! i)"
    if "Suc i < length (?c @ [b])" for i
  proof (cases "Suc i < length ?c")
    case True
    then show ?thesis using assms(1) by (simp add: chain_linked_def nth_append)
  next
    case False
    with that have i: "Suc i = length ?c" by simp
    then have i': "i = length ?c - 1" by simp
    have "(?c @ [b]) ! Suc i = b"
      using i by (simp add: nth_append)
    moreover have "(?c @ [b]) ! i = last ?c"
      using assms(2) i by (simp add: nth_append last_conv_nth i')
    ultimately have "(?c @ [b]) ! Suc i = b" "(?c @ [b]) ! i = last ?c"
      by simp_all
    with True show ?thesis by simp
  qed
  then show ?thesis using True by (simp add: AddBlockToChain_chain chain_linked_def)
qed



lemma sample_validator_fields:
  "m_f_rsus (sample_validator env) = 1" "m_localBlockchain (sample_validator env) = [genesisBlock env]"
  "m_nodeName (sample_validator env) = ''RSU-1''" "m_pbftActiveConsensus (sample_validator env) = Map.empty"
  by (simp_all add: sample_validator_def SetRsuList_def VanetBlockchainApp_init_def Let_def)

lemma genesis_hash_sample: "hd (blockHash (genesisBlock sample_env)) = CHR ''#''"
  by (simp add: genesisBlock_def calculateHash_def sample_env_def Let_def)

lemma genesis_not_h1: "''h1'' \<noteq> blockHash (genesisBlock sample_env)"
proof
  assume "''h1'' = blockHash (genesisBlock sample_env)"
  then have "hd ''h1'' = hd (blockHash (genesisBlock sample_env))" by simp
  then show False by (simp add: genesis_hash_sample)
qed







section \<open>Chain linkage and block hashes\<close>

lemma calculateHash_blockHash:
  "calculateHash env (b\<lparr>blockHash := h\<rparr>) = calculateHash env b"
  by (simp add: calculateHash_def)

lemma other_hash_differs:
  "other_hash env b \<noteq> calculateHash env b" "other_hash env b \<noteq> blockHash (genesisBlock env)"
proof -
  have "length (other_hash env b) \<noteq> length (calculateHash env b)"
    by (simp add: other_hash_def)
  then show "other_hash env b \<noteq> calculateHash env b" by metis
  have "length (other_hash env b) \<noteq> length (blockHash (genesisBlock env))"
    by (simp add: other_hash_def)
  then show "other_hash env b \<noteq> blockHash (genesisBlock env)" by metis
qed

text \<open>The linkage half holds on every path: a chain that is linked stays linked under a
  commit vote, and the block the proposer builds carries its own content hash.\<close>

lemma CreateCandidateBlock_valid: "ValidateBlock env (CreateCandidateBlock env now s)"
  by (simp add: ValidateBlock_def CreateCandidateBlock_def Let_def calculateHash_def)

lemma HandleCommit_linked:
  assumes "chain_linked (m_localBlockchain s)" and "m_localBlockchain s \<noteq> []"
  shows "chain_linked (m_localBlockchain (HandleCommit env s h voterId))"
proof (cases "m_pbftActiveConsensus s h")
  case None
  then show ?thesis using assms(1) by (simp add: HandleCommit_def)
next
  case (Some state)
  define s2 where "s2 = s\<lparr>m_pbftActiveConsensus := (m_pbftActiveConsensus s)(h \<mapsto>
      state\<lparr>commitVotes := commitVotes state @ [(voterId, ''commit_vote'')], phase := COMMITTED\<rparr>)\<rparr>"
  have c2: "m_localBlockchain s2 = m_localBlockchain s"
    by (simp add: s2_def)
  have "chain_linked (m_localBlockchain (AddBlockToChain s2 (block state)))"
    using assms by (intro AddBlockToChain_linked) (simp_all add: c2)
  then show ?thesis
    using Some assms(1)
    by (simp add: HandleCommit_def Let_def s2_def)
qed

text \<open>
  C2. The claim asks that every committed block's hash be the hash recomputed from its
  fields, and that this be checked before acceptance. On a follower it is not: the block
  takes its hash from the name of the PRE-PREPARE message, only the previous hash is
  compared, and three commit votes put into the chain a block whose hash is not the one
  \<^verbatim>\<open>calculateHash\<close> gives (\<^verbatim>\<open>ValidateBlock\<close> would reject it). This holds for every
  choice of the digest function.
\<close>

theorem follower_commits_unverified_hash:
  "let parsed = sample_block (blockHash (genesisBlock env)) [];
       h = other_hash env (parsed\<lparr>proposerId := ''RSU-0'', block_timestamp := nat now\<rparr>);
       receivedBlock = parsed\<lparr>blockHash := h, proposerId := ''RSU-0'', block_timestamp := nat now\<rparr>;
       s1 = HandlePrePrepare env now (sample_validator env) h ''RSU-0'' 0 0 parsed;
       s2 = HandleCommit env (HandleCommit env (HandleCommit env s1 h ''RSU-0'') h ''RSU-2'') h ''RSU-3''
   in m_localBlockchain s2 = [genesisBlock env, receivedBlock] \<and>
      previousHash receivedBlock = blockHash (genesisBlock env) \<and>
      blockHash receivedBlock \<noteq> calculateHash env receivedBlock \<and>
      \<not> ValidateBlock env receivedBlock"
proof -
  define parsed where "parsed = sample_block (blockHash (genesisBlock env)) []"
  define content where "content = parsed\<lparr>proposerId := ''RSU-0'', block_timestamp := nat now\<rparr>"
  define h where "h = other_hash env content"
  define receivedBlock where "receivedBlock = content\<lparr>blockHash := h\<rparr>"
  have rb: "parsed\<lparr>blockHash := h, proposerId := ''RSU-0'', block_timestamp := nat now\<rparr> = receivedBlock"
    by (simp add: receivedBlock_def content_def)
  have prev: "previousHash receivedBlock = blockHash (genesisBlock env)"
    by (simp add: receivedBlock_def content_def parsed_def sample_block_def)
  have bh: "blockHash receivedBlock = h"
    by (simp add: receivedBlock_def)
  have hc: "h \<noteq> calculateHash env receivedBlock"
    unfolding receivedBlock_def calculateHash_blockHash h_def by (rule other_hash_differs)
  have hg: "h \<noteq> blockHash (genesisBlock env)"
    unfolding h_def by (rule other_hash_differs)
  define s1 where "s1 = HandlePrePrepare env now (sample_validator env) h ''RSU-0'' 0 0 parsed"
  have s1: "m_pbftActiveConsensus s1 h = Some
       \<lparr> phase = PREPARE_SENT, block = receivedBlock, view = 0, state_seqNum = 0,
         state_proposerId = ''RSU-0'',
         prepareVotes = [(''RSU-1'', SignString env (sample_validator env) (h @ ''PREPARE''))],
         commitVotes = [] \<rparr>"
    "m_localBlockchain s1 = [genesisBlock env]" "m_f_rsus s1 = 1"
    unfolding s1_def
    using prev
    by (simp_all add: HandlePrePrepare_def BroadcastPrepare_def Let_def sample_validator_fields rb
        SignString_def)
  define s2 where "s2 = HandleCommit env s1 h ''RSU-0''"
  have s2: "m_pbftActiveConsensus s2 h = Some
       \<lparr> phase = PREPARE_SENT, block = receivedBlock, view = 0, state_seqNum = 0,
         state_proposerId = ''RSU-0'',
         prepareVotes = [(''RSU-1'', SignString env (sample_validator env) (h @ ''PREPARE''))],
         commitVotes = [(''RSU-0'', ''commit_vote'')] \<rparr>"
    "m_localBlockchain s2 = [genesisBlock env]" "m_f_rsus s2 = 1"
    unfolding s2_def by (simp_all add: HandleCommit_def s1 Let_def required_def)
  define s3 where "s3 = HandleCommit env s2 h ''RSU-2''"
  have s3: "m_pbftActiveConsensus s3 h = Some
       \<lparr> phase = PREPARE_SENT, block = receivedBlock, view = 0, state_seqNum = 0,
         state_proposerId = ''RSU-0'',
         prepareVotes = [(''RSU-1'', SignString env (sample_validator env) (h @ ''PREPARE''))],
         commitVotes = [(''RSU-0'', ''commit_vote''), (''RSU-2'', ''commit_vote'')] \<rparr>"
    "m_localBlockchain s3 = [genesisBlock env]" "m_f_rsus s3 = 1"
    unfolding s3_def by (simp_all add: HandleCommit_def s2 Let_def required_def)
  have s4: "m_localBlockchain (HandleCommit env s3 h ''RSU-3'') = [genesisBlock env, receivedBlock]"
    using prev bh hg
    by (simp add: HandleCommit_def s3 Let_def required_def AddBlockToChain_chain)
  have "m_localBlockchain
          (HandleCommit env (HandleCommit env (HandleCommit env s1 h ''RSU-0'') h ''RSU-2'') h ''RSU-3'') =
        [genesisBlock env, receivedBlock] \<and>
      previousHash receivedBlock = blockHash (genesisBlock env) \<and>
      blockHash receivedBlock \<noteq> calculateHash env receivedBlock \<and>
      \<not> ValidateBlock env receivedBlock"
    using s4 prev hc bh by (simp add: ValidateBlock_def s3_def s2_def)
  then show ?thesis
    apply (simp only: Let_def)
    apply (simp only: parsed_def [symmetric])
    apply (simp only: content_def [symmetric])
    apply (simp only: h_def [symmetric])
    apply (simp only: rb s1_def [symmetric])
    apply simp
    done
qed

section \<open>Confidence normalisation\<close>


lemma raw_trust_fold:
  fixes m0 :: "string \<rightharpoonup> real"
  assumes "foldl (raw_trust_step s) (m0, lo0, hi0) rs = (m, lo, hi)"
  shows "(\<forall>r\<in>set rs. m (vehicleId r) = Some (trust_factor s (vehicleId r))) \<and>
         lo \<le> lo0 \<and> hi0 \<le> hi \<and>
         (\<forall>r\<in>set rs. lo \<le> trust_factor s (vehicleId r) \<and> trust_factor s (vehicleId r) \<le> hi) \<and>
         (hi = hi0 \<or> (\<exists>r\<in>set rs. hi = trust_factor s (vehicleId r))) \<and>
         (lo = lo0 \<or> (\<exists>r\<in>set rs. lo = trust_factor s (vehicleId r)))"
  using assms
proof (induction rs arbitrary: m0 lo0 hi0)
  case Nil
  then show ?case by simp
next
  case (Cons a rs)
  define t where "t = trust_factor s (vehicleId a)"
  define m1 where "m1 = m0(vehicleId a \<mapsto> t)"
  define lo1 where "lo1 = (if t < lo0 then t else lo0)"
  define hi1 where "hi1 = (if t > hi0 then t else hi0)"
  have step: "raw_trust_step s (m0, lo0, hi0) a = (m1, lo1, hi1)"
    by (simp add: raw_trust_step_def Let_def t_def m1_def lo1_def hi1_def)
  with Cons.prems have f: "foldl (raw_trust_step s) (m1, lo1, hi1) rs = (m, lo, hi)"
    by simp
  note ih = Cons.IH [OF f]
  have keep: "m (vehicleId a) = Some t"
  proof (cases "vehicleId a \<in> vehicleId ` set rs")
    case True
    then obtain r where "r \<in> set rs" "vehicleId r = vehicleId a" by auto
    with ih show ?thesis by (metis t_def)
  next
    case False
    have "\<And>ma loa hia mb lob hib. foldl (raw_trust_step s) (ma, loa, hia) rs = (mb, lob, hib) \<Longrightarrow>
            vehicleId a \<notin> vehicleId ` set rs \<Longrightarrow> mb (vehicleId a) = ma (vehicleId a)"
    proof (induction rs)
      case Nil
      then show ?case by simp
    next
      case (Cons b rs)
      obtain mc loc hic where c: "raw_trust_step s (ma, loa, hia) b = (mc, loc, hic)"
        by (cases "raw_trust_step s (ma, loa, hia) b") auto
      then have "mc (vehicleId a) = ma (vehicleId a)"
        using Cons.prems(2) by (auto simp: raw_trust_step_def Let_def)
      moreover have "mb (vehicleId a) = mc (vehicleId a)"
        using Cons.IH [of mc loc hic mb lob hib] Cons.prems c by simp
      ultimately show ?case by simp
    qed
    from this [OF f False] show ?thesis by (simp add: m1_def)
  qed
  have lo1: "lo1 \<le> lo0" "lo1 \<le> t" "lo1 = lo0 \<or> lo1 = t" and hi1: "hi0 \<le> hi1" "t \<le> hi1" "hi1 = hi0 \<or> hi1 = t"
    by (auto simp: lo1_def hi1_def)
  show ?case
    using ih keep lo1 hi1 unfolding t_def [symmetric]
    by (auto simp: t_def)
qed


lemma norm_trust_fold_keep:
  assumes "foldl (norm_trust_step raw lo hi) (m0, a0) rs = (m, a)" and "v \<notin> vehicleId ` set rs"
  shows "m v = m0 v"
  using assms
proof (induction rs arbitrary: m0 a0)
  case Nil
  then show ?case by simp
next
  case (Cons b rs)
  obtain m1 a1 where c: "norm_trust_step raw lo hi (m0, a0) b = (m1, a1)"
    by (cases "norm_trust_step raw lo hi (m0, a0) b") auto
  then have "m1 v = m0 v"
    using Cons.prems(2) by (auto simp: norm_trust_step_def Let_def)
  moreover have "m v = m1 v"
    using Cons.IH [of m1 a1] Cons.prems c by simp
  ultimately show ?case by simp
qed

lemma norm_trust_fold:
  assumes "foldl (norm_trust_step raw lo hi) (m0, a0) rs = (m, a)"
  shows "(\<forall>r\<in>set rs. m (vehicleId r) = Some (T_norm_of raw lo hi (vehicleId r))) \<and>
         a = a0 + sum_list (map (\<lambda>r. T_norm_of raw lo hi (vehicleId r)) rs)"
  using assms
proof (induction rs arbitrary: m0 a0)
  case Nil
  then show ?case by simp
next
  case (Cons b rs)
  define t where "t = T_norm_of raw lo hi (vehicleId b)"
  have step: "norm_trust_step raw lo hi (m0, a0) b = (m0(vehicleId b \<mapsto> t), a0 + t)"
    by (simp add: norm_trust_step_def Let_def t_def)
  with Cons.prems have f: "foldl (norm_trust_step raw lo hi) (m0(vehicleId b \<mapsto> t), a0 + t) rs = (m, a)"
    by simp
  note ih = Cons.IH [OF f]
  have keep: "m (vehicleId b) = Some t"
  proof (cases "vehicleId b \<in> vehicleId ` set rs")
    case True
    then obtain r where "r \<in> set rs" "vehicleId r = vehicleId b" by auto
    with ih show ?thesis by (metis t_def)
  next
    case False
    from norm_trust_fold_keep [OF f False] show ?thesis by simp
  qed
  show ?case
    using ih keep by (simp add: t_def)
qed

lemma sumT_supporters_sum:
  "sumT_supporters nm rs claim =
     sum_list (map (\<lambda>r. if reportedEventType r = claim then at_key nm (vehicleId r) else 0) rs)"
proof -
  have "foldl (\<lambda>acc r. if reportedEventType r = claim
                      then acc + at_key nm (vehicleId r) else acc) a rs =
        a + sum_list (map (\<lambda>r. if reportedEventType r = claim then at_key nm (vehicleId r) else 0) rs)"
    for a
    by (induction rs arbitrary: a) simp_all
  then show ?thesis by (simp add: sumT_supporters_def)
qed

lemma uniqueClaims_fold:
  assumes "distinct acc"
  shows "distinct (foldl (\<lambda>claims r. if reportedEventType r \<in> set claims then claims
                         else claims @ [reportedEventType r]) acc rs) \<and>
         set (foldl (\<lambda>claims r. if reportedEventType r \<in> set claims then claims
                         else claims @ [reportedEventType r]) acc rs) =
           set acc \<union> reportedEventType ` set rs"
  using assms
proof (induction rs arbitrary: acc)
  case Nil
  then show ?case by simp
next
  case (Cons r rs)
  show ?case
  proof (cases "reportedEventType r \<in> set acc")
    case True
    with Cons.IH [OF Cons.prems] show ?thesis by auto
  next
    case False
    with Cons.prems have "distinct (acc @ [reportedEventType r])" by simp
    from Cons.IH [OF this] False show ?thesis by auto
  qed
qed

lemma uniqueClaims_props:
  "distinct (uniqueClaims rs)" "set (uniqueClaims rs) = reportedEventType ` set rs"
  using uniqueClaims_fold [of "[]" rs] by (simp_all add: uniqueClaims_def)

lemma sum_list_indicator_absent:
  fixes v :: real
  assumes "a \<notin> set cs"
  shows "sum_list (map (\<lambda>c. if a = c then v else 0) cs) = 0"
  using assms by (induction cs) auto

lemma sum_list_indicator:
  fixes v :: real
  assumes "distinct cs" and "a \<in> set cs"
  shows "sum_list (map (\<lambda>c. if a = c then v else 0) cs) = v"
  using assms by (induction cs) (auto simp: sum_list_indicator_absent)

lemma sum_list_by_label:
  fixes g :: "'r \<Rightarrow> real"
  assumes "distinct cs" and "\<forall>r\<in>set rs. label r \<in> set cs"
  shows "sum_list (map (\<lambda>c. sum_list (map (\<lambda>r. if label r = c then g r else 0) rs)) cs) =
         sum_list (map g rs)"
  using assms(2)
proof (induction rs)
  case Nil
  then show ?case by simp
next
  case (Cons r rs)
  have "sum_list (map (\<lambda>c. sum_list (map (\<lambda>r. if label r = c then g r else 0) (r # rs))) cs) =
        sum_list (map (\<lambda>c. (if label r = c then g r else 0) +
                             sum_list (map (\<lambda>r. if label r = c then g r else 0) rs)) cs)"
    by simp
  also have "\<dots> = sum_list (map (\<lambda>c. if label r = c then g r else 0) cs) +
        sum_list (map (\<lambda>c. sum_list (map (\<lambda>r. if label r = c then g r else 0) rs)) cs)"
    by (rule sum_list_addf)
  also have "sum_list (map (\<lambda>c. if label r = c then g r else 0) cs) = g r"
    using assms(1) Cons.prems by (intro sum_list_indicator) simp_all
  finally show ?case using Cons by simp
qed

lemma sum_list_divide:
  fixes f :: "'a \<Rightarrow> real"
  shows "sum_list (map (\<lambda>c. f c / k) cs) = sum_list (map f cs) / k"
  by (induction cs) (simp_all add: add_divide_distrib)

lemma sum_list_ge_member:
  fixes f :: "'a \<Rightarrow> real"
  assumes "\<forall>x\<in>set xs. 0 \<le> f x" and "x \<in> set xs"
  shows "f x \<le> sum_list (map f xs)"
  using assms
proof (induction xs)
  case Nil
  then show ?case by simp
next
  case (Cons y ys)
  have nn: "0 \<le> sum_list (map f ys)"
    using Cons.prems(1) by (intro sum_list_nonneg) auto
  show ?case
  proof (cases "x = y")
    case True
    then show ?thesis using nn by simp
  next
    case False
    with Cons have "f x \<le> sum_list (map f ys)" by simp
    moreover have "0 \<le> f y" using Cons.prems(1) by simp
    ultimately show ?thesis by simp
  qed
qed


lemma confidence_sum_one:
  assumes "rs \<noteq> []" and "\<forall>r\<in>set rs. 0 \<le> trust_factor s (vehicleId r)"
  shows "sum_list (map snd (claimConfidence s rs)) = 1"
proof -
  obtain raw lo hi where rt: "raw_trust s rs = (raw, lo, hi)"
    by (cases "raw_trust s rs") auto
  obtain nm sumAll where nt: "norm_trust raw lo hi rs = (nm, sumAll)"
    by (cases "norm_trust raw lo hi rs") auto
  from rt have "foldl (raw_trust_step s) (Map.empty, 1, 0) rs = (raw, lo, hi)"
    by (simp add: raw_trust_def)
  from raw_trust_fold [OF this] have
    rawv: "\<forall>r\<in>set rs. raw (vehicleId r) = Some (trust_factor s (vehicleId r))" and
    rng: "\<forall>r\<in>set rs. lo \<le> trust_factor s (vehicleId r) \<and> trust_factor s (vehicleId r) \<le> hi" and
    att: "hi = 0 \<or> (\<exists>r\<in>set rs. hi = trust_factor s (vehicleId r))"
    by blast+
  define N :: "EventReport \<Rightarrow> real" where "N = (\<lambda>r. T_norm_of raw lo hi (vehicleId r))"
  from nt have "foldl (norm_trust_step raw lo hi) (Map.empty, 0) rs = (nm, sumAll)"
    by (simp add: norm_trust_def)
  from norm_trust_fold [OF this] have
    nmv: "\<forall>r\<in>set rs. nm (vehicleId r) = Some (N r)" and
    sumAll: "sumAll = sum_list (map N rs)"
    by (simp_all add: N_def)
  have supp: "sumT_supporters nm rs c =
        sum_list (map (\<lambda>r. if reportedEventType r = c then N r else 0) rs)" for c
    unfolding sumT_supporters_sum
    by (rule arg_cong [where f = sum_list], rule map_cong) (use nmv in \<open>auto simp: at_key_def\<close>)
  have total: "sum_list (map (sumT_supporters nm rs) (uniqueClaims rs)) = sumAll"
    unfolding sumAll supp
    by (rule sum_list_by_label) (simp_all add: uniqueClaims_props)
  obtain r0 where r0: "r0 \<in> set rs"
    using assms(1) by (cases rs) auto
  have pos: "0 < sumAll"
  proof (cases "\<bar>hi - lo\<bar> < 1 / 1000000")
    case True
    then have "N = (\<lambda>r. 1 / 2)"
      by (simp add: N_def T_norm_of_def fun_eq_iff)
    note Nc = this
    define n where "n = real (length rs)"
    from Nc have "sumAll = n * (1 / 2)"
      unfolding sumAll n_def by (simp only: sum_list_triv)
    moreover have "0 < n"
      using assms(1) by (simp add: n_def)
    ultimately show ?thesis by simp
  next
    case False
    from rng r0 have "lo \<le> hi" by force
    with False have gap: "0 < hi - lo" by simp
    have Nr: "N r = (trust_factor s (vehicleId r) - lo) / (hi - lo)" if "r \<in> set rs" for r
      using that rawv False by (simp add: N_def T_norm_of_def at_key_def)
    have nonneg: "\<forall>r\<in>set rs. 0 \<le> N r"
      using rng gap by (simp add: Nr)
    have "\<exists>r\<in>set rs. hi = trust_factor s (vehicleId r)"
    proof (cases "hi = 0")
      case True
      with rng r0 assms(2) have "trust_factor s (vehicleId r0) = hi" by force
      with r0 show ?thesis by auto
    next
      case False
      with att show ?thesis by simp
    qed
    then obtain r1 where r1: "r1 \<in> set rs" "hi = trust_factor s (vehicleId r1)" by blast
    then have "N r1 = 1" using gap by (simp add: Nr)
    moreover have "N r1 \<le> sum_list (map N rs)"
      using nonneg r1(1) by (rule sum_list_ge_member)
    ultimately show ?thesis by (simp add: sumAll)
  qed
  have "map snd (claimConfidence s rs) =
        map (\<lambda>c. sumT_supporters nm rs c / sumAll) (uniqueClaims rs)"
    using pos by (simp add: claimConfidence_def rt nt comp_def)
  then have "sum_list (map snd (claimConfidence s rs)) =
        sum_list (map (sumT_supporters nm rs) (uniqueClaims rs)) / sumAll"
    by (simp add: sum_list_divide)
  with total pos show ?thesis by simp
qed


lemma rpf_fold_bounds:
  assumes "\<forall>i\<in>set js. history ! i = 0 \<or> history ! i = 1" and "0 \<le> n" and "n \<le> d"
  shows "0 \<le> fst (foldl (\<lambda>(numerator_rpf, denominator_rpf) i.
              let weight = DECAY_GAMMA ^ (length history - 1 - i)
              in (numerator_rpf + real_of_int (history ! i) * weight, denominator_rpf + weight))
           (n, d) js) \<and>
         fst (foldl (\<lambda>(numerator_rpf, denominator_rpf) i.
              let weight = DECAY_GAMMA ^ (length history - 1 - i)
              in (numerator_rpf + real_of_int (history ! i) * weight, denominator_rpf + weight))
           (n, d) js) \<le>
         snd (foldl (\<lambda>(numerator_rpf, denominator_rpf) i.
              let weight = DECAY_GAMMA ^ (length history - 1 - i)
              in (numerator_rpf + real_of_int (history ! i) * weight, denominator_rpf + weight))
           (n, d) js)"
  using assms
proof (induction js arbitrary: n d)
  case Nil
  then show ?case by simp
next
  case (Cons j js)
  define w where "w = DECAY_GAMMA ^ (length history - 1 - j)"
  have w: "0 \<le> w" by (simp add: w_def DECAY_GAMMA_def)
  from Cons.prems(1) have hj: "history ! j = 0 \<or> history ! j = 1"
    and tl: "\<forall>i\<in>set js. history ! i = 0 \<or> history ! i = 1" by simp_all
  have a: "0 \<le> n + real_of_int (history ! j) * w"
    using hj w Cons.prems(2) by auto
  have b: "n + real_of_int (history ! j) * w \<le> d + w"
    using hj w Cons.prems(3) by auto
  from Cons.IH [OF tl a b] show ?case
    by (simp add: Let_def w_def)
qed

lemma RPF_bounds:
  assumes "\<forall>x\<in>set history. x = 0 \<or> x = 1"
  shows "0 \<le> RPF history \<and> RPF history \<le> 1"
proof -
  have idx: "\<forall>i\<in>set [0..<length history]. history ! i = 0 \<or> history ! i = 1"
    using assms by simp
  obtain n d where nd: "rpf_loop history = (n, d)"
    by (cases "rpf_loop history") auto
  from rpf_fold_bounds [OF idx, of 0 0] nd have "0 \<le> n" "n \<le> d"
    by (simp_all add: rpf_loop_def)
  then show ?thesis
    by (simp add: RPF_def nd)
qed

lemma volatility_fold_bounds:
  assumes "\<forall>i\<in>set js. \<bar>history ! i - history ! (i - 1)\<bar> \<le> 1"
  shows "a \<le> foldl (\<lambda>acc i. acc + real_of_int \<bar>history ! i - history ! (i - 1)\<bar>) a js \<and>
         foldl (\<lambda>acc i. acc + real_of_int \<bar>history ! i - history ! (i - 1)\<bar>) a js \<le> a + real (length js)"
  using assms
proof (induction js arbitrary: a)
  case Nil
  then show ?case by simp
next
  case (Cons j js)
  from Cons.prems have hj: "\<bar>history ! j - history ! (j - 1)\<bar> \<le> 1"
    and tl: "\<forall>i\<in>set js. \<bar>history ! i - history ! (i - 1)\<bar> \<le> 1" by simp_all
  have r: "0 \<le> real_of_int \<bar>history ! j - history ! (j - 1)\<bar>"
    "real_of_int \<bar>history ! j - history ! (j - 1)\<bar> \<le> 1"
    using hj by linarith+
  define v where "v = real_of_int \<bar>history ! j - history ! (j - 1)\<bar>"
  define F where "F = foldl (\<lambda>acc i. acc + real_of_int \<bar>history ! i - history ! (i - 1)\<bar>) (a + v) js"
  have eq: "foldl (\<lambda>acc i. acc + real_of_int \<bar>history ! i - history ! (i - 1)\<bar>) a (j # js) = F"
    by (simp only: foldl_Cons F_def v_def)
  from Cons.IH [OF tl, of "a + v"] have "a + v \<le> F" "F \<le> a + v + real (length js)"
    by (simp_all only: F_def)
  moreover from r have "0 \<le> v" "v \<le> 1"
    by (simp_all only: v_def)
  moreover have "real (length (j # js)) = real (length js) + 1"
    by simp
  ultimately show ?case
    unfolding eq by linarith
qed

lemma F_vol_bounds:
  assumes "\<forall>x\<in>set history. x = 0 \<or> x = 1"
  shows "0 \<le> F_vol history \<and> F_vol history \<le> 1"
proof (cases "length history > 1")
  case False
  then show ?thesis by (simp add: F_vol_def)
next
  case True
  have "\<bar>history ! i - history ! (i - 1)\<bar> \<le> 1" if "i \<in> set [1..<length history]" for i
  proof -
    from that have "i < length history" "i - 1 < length history"
      by auto
    then have "history ! i \<in> set history" "history ! (i - 1) \<in> set history"
      by (simp_all only: nth_mem)
    with assms have "history ! i = 0 \<or> history ! i = 1" "history ! (i - 1) = 0 \<or> history ! (i - 1) = 1"
      by blast+
    then show ?thesis by auto
  qed
  then have "\<forall>i\<in>set [1..<length history]. \<bar>history ! i - history ! (i - 1)\<bar> \<le> 1"
    by blast
  from volatility_fold_bounds [OF this, of 0]
  have "0 \<le> volatility_sum history" "volatility_sum history \<le> real (length history - 1)"
    by (simp_all add: volatility_sum_def)
  moreover have "0 < real (length history - 1)"
    using True by simp
  ultimately show ?thesis
    using True by (simp add: F_vol_def)
qed

lemma weighted_bounds:
  fixes R F :: real
  assumes "0 \<le> R" and "R \<le> 1" and "0 \<le> F" and "F \<le> 1"
  shows "0 \<le> 6 / 10 * (1 - R) + 4 / 10 * F" and "6 / 10 * (1 - R) + 4 / 10 * F \<le> 1"
  using assms by (simp_all add: field_simps)

lemma suspicion_bounds:
  assumes "history_binary s"
  shows "0 \<le> CalculateSuspicionScore s vid \<and> CalculateSuspicionScore s vid \<le> 1"
proof (cases "m_vehicleReportHistory s vid")
  case None
  then show ?thesis by (simp add: CalculateSuspicionScore_def)
next
  case (Some history)
  with assms have bin: "\<forall>x\<in>set history. x = 0 \<or> x = 1"
    by (auto simp: history_binary_def)
  from RPF_bounds [OF bin] F_vol_bounds [OF bin]
  have rf: "0 \<le> RPF history" "RPF history \<le> 1" "0 \<le> F_vol history" "F_vol history \<le> 1"
    by simp_all
  have "0 \<le> WEIGHT_RPF * (1 - RPF history) + WEIGHT_VOL * F_vol history"
    unfolding WEIGHT_RPF_def WEIGHT_VOL_def using rf by (rule weighted_bounds)
  moreover have "WEIGHT_RPF * (1 - RPF history) + WEIGHT_VOL * F_vol history \<le> 1"
    unfolding WEIGHT_RPF_def WEIGHT_VOL_def using rf by (rule weighted_bounds)
  ultimately have "0 \<le> WEIGHT_RPF * (1 - RPF history) + WEIGHT_VOL * F_vol history"
    "WEIGHT_RPF * (1 - RPF history) + WEIGHT_VOL * F_vol history \<le> 1"
    by simp_all
  then show ?thesis
    using Some by (simp add: CalculateSuspicionScore_def)
qed

lemma trust_factor_bounds:
  assumes "reputations_bounded s" and "history_binary s"
  shows "0 \<le> trust_factor s vid \<and> trust_factor s vid \<le> 1"
proof -
  define baseRep where "baseRep = (case m_vehicleReputations s vid of Some r \<Rightarrow> r | None \<Rightarrow> 0.5)"
  have b: "0 \<le> baseRep" "baseRep \<le> 1"
    using assms(1) by (auto simp: baseRep_def reputations_bounded_def split: option.splits)
  from suspicion_bounds [OF assms(2), of vid]
  have c: "0 \<le> 1 - CalculateSuspicionScore s vid" "1 - CalculateSuspicionScore s vid \<le> 1"
    by simp_all
  have "0 \<le> baseRep * (1 - CalculateSuspicionScore s vid)"
    using b(1) c(1) by simp
  moreover have "baseRep * (1 - CalculateSuspicionScore s vid) \<le> 1"
    using b c by (simp add: mult_le_one)
  ultimately show ?thesis
    by (simp add: trust_factor_def baseRep_def Let_def)
qed


text \<open>
  C5, as the code has it. On a ledger whose stored reputations lie in [0,1] and whose
  histories hold only 0 and 1, the confidences of a non-empty cluster, one for each
  distinct claimed label, add up to 1 in exact arithmetic (in doubles, up to the rounding of
  the sums and quotients); and when all raw trust factors are equal every reporter's
  normalised trust is 0.5.
\<close>

theorem confidence_normalization:
  assumes "reports cluster \<noteq> []" and "reputations_bounded s" and "history_binary s"
  shows "sum_list (map snd (claimConfidence s (reports cluster))) = 1 \<and>
         distinct (map fst (claimConfidence s (reports cluster))) \<and>
         set (map fst (claimConfidence s (reports cluster))) = reportedEventType ` set (reports cluster) \<and>
         ((\<forall>r\<in>set (reports cluster). trust_factor s (vehicleId r) =
              trust_factor s (vehicleId (hd (reports cluster))))
          \<longrightarrow> (case raw_trust s (reports cluster) of (rawTrustFactors, T_min, T_max) \<Rightarrow>
                 \<forall>r\<in>set (reports cluster).
                   fst (norm_trust rawTrustFactors T_min T_max (reports cluster)) (vehicleId r) =
                   Some (1 / 2)))"
proof (intro conjI impI)
  let ?rs = "reports cluster"
  have tf: "\<forall>r\<in>set ?rs. 0 \<le> trust_factor s (vehicleId r)"
    using trust_factor_bounds [OF assms(2,3)] by blast
  show "sum_list (map snd (claimConfidence s ?rs)) = 1"
    using assms(1) tf by (rule confidence_sum_one)
  have names: "map fst (claimConfidence s ?rs) = uniqueClaims ?rs"
    by (simp add: claimConfidence_def comp_def split: prod.splits)
  show "distinct (map fst (claimConfidence s ?rs))"
    unfolding names by (rule uniqueClaims_props)
  show "set (map fst (claimConfidence s ?rs)) = reportedEventType ` set ?rs"
    unfolding names by (rule uniqueClaims_props)
  assume eq: "\<forall>r\<in>set ?rs. trust_factor s (vehicleId r) = trust_factor s (vehicleId (hd ?rs))"
  define t where "t = trust_factor s (vehicleId (hd ?rs))"
  have t: "0 \<le> t" "t \<le> 1"
    using trust_factor_bounds [OF assms(2,3)] by (simp_all add: t_def)
  obtain raw lo hi where rt: "raw_trust s ?rs = (raw, lo, hi)"
    by (cases "raw_trust s ?rs") auto
  then have "foldl (raw_trust_step s) (Map.empty, 1, 0) ?rs = (raw, lo, hi)"
    by (simp add: raw_trust_def)
  from raw_trust_fold [OF this] eq have
    rng: "\<forall>r\<in>set ?rs. lo \<le> t \<and> t \<le> hi" and
    hi: "hi = 0 \<or> hi = t" and lo: "lo = 1 \<or> lo = t"
    unfolding t_def by auto
  from assms(1) have "hd ?rs \<in> set ?rs" by simp
  with rng have "lo \<le> t" "t \<le> hi" by blast+
  with hi lo t have "lo = t" "hi = t" by auto
  then have half: "T_norm_of raw lo hi vid = 1 / 2" for vid
    by (simp add: T_norm_of_def)
  obtain nm sumAll where nt: "norm_trust raw lo hi ?rs = (nm, sumAll)"
    by (cases "norm_trust raw lo hi ?rs") auto
  then have "foldl (norm_trust_step raw lo hi) (Map.empty, 0) ?rs = (nm, sumAll)"
    by (simp add: norm_trust_def)
  from norm_trust_fold [OF this] have "\<forall>r\<in>set ?rs. nm (vehicleId r) = Some (1 / 2)"
    by (simp add: half)
  then show "case raw_trust s ?rs of (rawTrustFactors, T_min, T_max) \<Rightarrow>
                 \<forall>r\<in>set ?rs.
                   fst (norm_trust rawTrustFactors T_min T_max ?rs) (vehicleId r) = Some (1 / 2)"
    by (simp add: rt nt)
qed


lemma UpdateLocalHistory_binary:
  assumes "history_binary s"
  shows "history_binary (UpdateLocalHistory s vid c)"
proof -
  define h0 where "h0 = (case m_vehicleReportHistory s vid of Some h \<Rightarrow> h | None \<Rightarrow> [])"
  define h where "h = h0 @ [if c then 1 else 0 :: int]"
  define h' where "h' = (if length h > HISTORY_WINDOW_N then tl h else h)"
  have "\<forall>x\<in>set h0. x = 0 \<or> x = 1"
  proof (cases "m_vehicleReportHistory s vid")
    case None
    then show ?thesis by (simp add: h0_def)
  next
    case (Some hs)
    with assms have "\<forall>x\<in>set hs. x = 0 \<or> x = 1"
      unfolding history_binary_def by blast
    with Some show ?thesis by (simp add: h0_def)
  qed
  then have "\<forall>x\<in>set h. x = 0 \<or> x = 1"
    by (auto simp: h_def)
  moreover have "set (tl h) \<subseteq> set h"
    by (cases h) auto
  then have "set h' \<subseteq> set h"
    by (simp add: h'_def)
  ultimately have bin: "\<forall>x\<in>set h'. x = 0 \<or> x = 1"
    by blast
  have "UpdateLocalHistory s vid c = s\<lparr>m_vehicleReportHistory := (m_vehicleReportHistory s)(vid \<mapsto> h')\<rparr>"
    by (simp add: UpdateLocalHistory_def Let_def h'_def h_def h0_def)
  then show ?thesis
    using assms bin by (auto simp: history_binary_def)
qed

lemma sample_node_invariants: "reputations_bounded sample_node" "history_binary sample_node"
  by (simp_all add: reputations_bounded_def history_binary_def sample_node_def VanetBlockchainApp_init_def)

lemma sample_node_trust: "trust_factor sample_node vid = 1 / 2"
  by (simp add: trust_factor_def CalculateSuspicionScore_def sample_node_def VanetBlockchainApp_init_def)

lemma sample_history_node_invariants:
  "reputations_bounded sample_history_node" "history_binary sample_history_node"
  by (auto simp: reputations_bounded_def history_binary_def sample_history_node_def
      split: if_splits)

lemma negative_ledger_tables:
  "m_vehicleReputations negative_ledger = [''V9'' \<mapsto> - 1]"
  "m_vehicleReportHistory negative_ledger = Map.empty"
  using genesis_not_h1
  by (simp_all add: negative_ledger_def AddBlockToChain_def sample_block_def sample_node_def
      VanetBlockchainApp_init_def apply_tx_def Transaction_default_def)

theorem confidence_normalization_witness:
  "reports (sample_cluster ''Accident''
      [sample_report ''V1'' ''Accident'' ''Accident'', sample_report ''V2'' ''Jam'' ''Accident'',
       sample_report ''V3'' ''Accident'' ''Accident'']) \<noteq> [] \<and>
   reputations_bounded sample_history_node \<and> history_binary sample_history_node \<and>
   m_vehicleReputations sample_history_node ''V2'' = Some (1 / 4) \<and>
   m_vehicleReportHistory sample_history_node ''V2'' = Some [0, 1] \<and>
   sum_list (map snd (claimConfidence sample_history_node
      (reports (sample_cluster ''Accident''
        [sample_report ''V1'' ''Accident'' ''Accident'', sample_report ''V2'' ''Jam'' ''Accident'',
         sample_report ''V3'' ''Accident'' ''Accident''])))) = 1 \<and>
   set (map fst (claimConfidence sample_history_node
      (reports (sample_cluster ''Accident''
        [sample_report ''V1'' ''Accident'' ''Accident'', sample_report ''V2'' ''Jam'' ''Accident'',
         sample_report ''V3'' ''Accident'' ''Accident''])))) = {''Accident'', ''Jam''} \<and>
   reputations_bounded sample_node \<and> history_binary sample_node \<and>
   sum_list (map snd (claimConfidence sample_node
      (reports (sample_cluster ''Accident''
         [sample_report ''V1'' ''Accident'' ''Accident'', sample_report ''V2'' ''Jam'' ''Accident''])))) = 1 \<and>
   (case raw_trust sample_node
      [sample_report ''V1'' ''Accident'' ''Accident'', sample_report ''V2'' ''Jam'' ''Accident''] of
      (rawTrustFactors, T_min, T_max) \<Rightarrow>
        fst (norm_trust rawTrustFactors T_min T_max
          [sample_report ''V1'' ''Accident'' ''Accident'', sample_report ''V2'' ''Jam'' ''Accident''])
          ''V2'') = Some (1 / 2)"
proof -
  let ?c3 = "sample_cluster ''Accident''
      [sample_report ''V1'' ''Accident'' ''Accident'', sample_report ''V2'' ''Jam'' ''Accident'',
       sample_report ''V3'' ''Accident'' ''Accident'']"
  let ?c2 = "sample_cluster ''Accident''
      [sample_report ''V1'' ''Accident'' ''Accident'', sample_report ''V2'' ''Jam'' ''Accident'']"
  have n3: "reports ?c3 \<noteq> []" and n2: "reports ?c2 \<noteq> []"
    by (simp_all add: sample_cluster_fields)
  note t3 = confidence_normalization [OF n3 sample_history_node_invariants]
  note t2 = confidence_normalization [OF n2 sample_node_invariants]
  have a: "sum_list (map snd (claimConfidence sample_history_node (reports ?c3))) = 1"
    "set (map fst (claimConfidence sample_history_node (reports ?c3))) = {''Accident'', ''Jam''}"
    using t3 by (auto simp: sample_cluster_fields sample_report_fields)
  have b: "sum_list (map snd (claimConfidence sample_node (reports ?c2))) = 1"
    "(case raw_trust sample_node
      [sample_report ''V1'' ''Accident'' ''Accident'', sample_report ''V2'' ''Jam'' ''Accident''] of
      (rawTrustFactors, T_min, T_max) \<Rightarrow>
        fst (norm_trust rawTrustFactors T_min T_max
          [sample_report ''V1'' ''Accident'' ''Accident'', sample_report ''V2'' ''Jam'' ''Accident''])
          ''V2'') = Some (1 / 2)"
    using t2 by (auto simp: sample_cluster_fields sample_report_fields sample_node_trust split: prod.splits)
  have c: "m_vehicleReputations sample_history_node ''V2'' = Some (1 / 4)"
    "m_vehicleReportHistory sample_history_node ''V2'' = Some [0, 1]"
    by (simp_all add: sample_history_node_def)
  from n3 sample_history_node_invariants sample_node_invariants a b c show ?thesis by simp
qed

text \<open>Without the bound on the stored reputations the sum is not 1. A block's payload is
  stored as it comes: after a registration with the initial reputation \<open>-1\<close> the only
  reporter of a cluster has the trust factor \<open>-1\<close>, the running maximum stays at its
  start 0, the normalised trust is 0 and so is the sum of all of them, and the confidence of
  the one label is 0, in exact arithmetic and in binary64 alike.\<close>

theorem confidence_negative_reputation_counterexample:
  "m_vehicleReputations negative_ledger ''V9'' = Some (- 1) \<and>
   history_binary negative_ledger \<and>
   reports (sample_cluster ''Accident'' [sample_report ''V9'' ''Accident'' ''Accident'']) \<noteq> [] \<and>
   claimConfidence negative_ledger
     (reports (sample_cluster ''Accident'' [sample_report ''V9'' ''Accident'' ''Accident''])) =
     [(''Accident'', 0)] \<and>
   sum_list (map snd (claimConfidence negative_ledger
     (reports (sample_cluster ''Accident'' [sample_report ''V9'' ''Accident'' ''Accident''])))) \<noteq> 1 \<and>
   claimConfidence_d binary64_fp negative_ledger
     (reports (sample_cluster ''Accident'' [sample_report ''V9'' ''Accident'' ''Accident''])) =
     [(''Accident'', 0)]"
proof -
  have t: "trust_factor negative_ledger ''V9'' = - 1"
    by (simp add: trust_factor_def CalculateSuspicionScore_def negative_ledger_tables)
  have td: "trust_factor_d binary64_fp negative_ledger ''V9'' = - 1"
    by (simp add: trust_factor_d_def CalculateSuspicionScore_d_def negative_ledger_tables
        binary64_fp_fields binary64_1 binary64_minus_1)
  have c: "claimConfidence negative_ledger [sample_report ''V9'' ''Accident'' ''Accident''] =
           [(''Accident'', 0)]"
    by (simp add: claimConfidence_def raw_trust_def raw_trust_step_def norm_trust_def
      norm_trust_step_def T_norm_of_def uniqueClaims_def sumT_supporters_def at_key_def
      t sample_report_fields Let_def)
  have d: "claimConfidence_d binary64_fp negative_ledger [sample_report ''V9'' ''Accident'' ''Accident''] =
           [(''Accident'', 0)]"
    by (simp add: claimConfidence_d_def raw_trust_d_def raw_trust_step_d_def norm_trust_d_def
      norm_trust_step_d_def T_norm_of_d_def uniqueClaims_def sumT_supporters_d_def at_key_def
      td sample_report_fields Let_def binary64_fp_fields binary64_0 binary64_1 binary64_literals)
  have h: "history_binary negative_ledger"
    by (simp add: history_binary_def negative_ledger_tables)
  from c d h show ?thesis
    by (simp add: sample_cluster_fields negative_ledger_tables)
qed

section \<open>Effects of a decision\<close>












lemma sample_node_ledger:
  "forwarded sample_node = []" "m_vehicleReputations sample_node = Map.empty"
  "m_vehicleReportHistory sample_node = Map.empty"
  "m_alpha sample_node = 1 / 20" "m_beta sample_node = 7 / 20"
  by (simp_all add: sample_node_def VanetBlockchainApp_init_def)


text \<open>Where the rounding decides. With the stored reputations 0.5, 0.36 and 0.42 the doubles
  give the winning confidence 0.7000000000000001, above the double nearest to 0.70, and
  the cluster is validated; in exact arithmetic the confidence is 7/10 and is not above
  the threshold.\<close>

lemma binary64_ledger:
  "binary64 (9 / 25) = 3242591731706757 / 9007199254740992"
  "binary64 (21 / 50) = 7566047373982433 / 18014398509481984"
  "binary64 (3242591731706757 / 9007199254740992) = 3242591731706757 / 9007199254740992"
  "binary64 (7566047373982433 / 18014398509481984) = 7566047373982433 / 18014398509481984"
  "binary64 (1261007895663739 / 9007199254740992) = 1261007895663739 / 9007199254740992"
  "binary64 (1080863910568919 / 18014398509481984) = 1080863910568919 / 18014398509481984"
  "binary64 (1080863910568919 / 2522015791327478) = 3860228252031853 / 9007199254740992"
  "binary64 (3860228252031853 / 9007199254740992) = 3860228252031853 / 9007199254740992"
  "binary64 (12867427506772845 / 9007199254740992) = 3216856876693211 / 2251799813685248"
  "binary64 (2251799813685248 / 3216856876693211) = 6305039478318695 / 9007199254740992"
  "binary64 (3860228252031853 / 12867427506772844) = 5404319552844595 / 18014398509481984"
proof -
  show "binary64 (9 / 25) = 3242591731706757 / 9007199254740992"
    by (subst binary64_scaled [where k = 54]) (simp_all add: round_half_even_def)
  show "binary64 (21 / 50) = 7566047373982433 / 18014398509481984"
    by (subst binary64_scaled [where k = 54]) (simp_all add: round_half_even_def)
  show "binary64 (3242591731706757 / 9007199254740992) = 3242591731706757 / 9007199254740992"
    by (subst binary64_scaled [where k = 54]) (simp_all add: round_half_even_def)
  show "binary64 (7566047373982433 / 18014398509481984) = 7566047373982433 / 18014398509481984"
    by (subst binary64_scaled [where k = 54]) (simp_all add: round_half_even_def)
  show "binary64 (1261007895663739 / 9007199254740992) = 1261007895663739 / 9007199254740992"
    by (subst binary64_scaled [where k = 55]) (simp_all add: round_half_even_def)
  show "binary64 (1080863910568919 / 18014398509481984) = 1080863910568919 / 18014398509481984"
    by (subst binary64_scaled [where k = 57]) (simp_all add: round_half_even_def)
  show "binary64 (1080863910568919 / 2522015791327478) = 3860228252031853 / 9007199254740992"
    by (subst binary64_scaled [where k = 54]) (simp_all add: round_half_even_def)
  show "binary64 (3860228252031853 / 9007199254740992) = 3860228252031853 / 9007199254740992"
    by (subst binary64_scaled [where k = 54]) (simp_all add: round_half_even_def)
  show "binary64 (12867427506772845 / 9007199254740992) = 3216856876693211 / 2251799813685248"
    by (subst binary64_scaled [where k = 52]) (simp_all add: round_half_even_def)
  show "binary64 (2251799813685248 / 3216856876693211) = 6305039478318695 / 9007199254740992"
    by (subst binary64_scaled [where k = 53]) (simp_all add: round_half_even_def)
  show "binary64 (3860228252031853 / 12867427506772844) = 5404319552844595 / 18014398509481984"
    by (subst binary64_scaled [where k = 54]) (simp_all add: round_half_even_def)
qed

lemma sample_ledger_fields:
  "m_vehicleReputations (sample_ledger r1 r2 r3) = [''V1'' \<mapsto> r1, ''V2'' \<mapsto> r2, ''V3'' \<mapsto> r3]"
  "m_vehicleReportHistory (sample_ledger r1 r2 r3) = Map.empty"
  by (simp_all add: sample_ledger_def sample_node_ledger)

lemma verdict_follows_the_doubles:
  "winning (claimConfidence_d binary64_fp
      (sample_ledger (binary64 0.5) (binary64 0.36) (binary64 0.42))
      [sample_report ''V1'' ''Accident'' ''Accident'', sample_report ''V2'' ''Accident'' ''Accident'',
       sample_report ''V3'' ''Jam'' ''Accident'']) =
     (''Accident'', 6305039478318695 / 9007199254740992)"
  "verdict_of binary64_fp (6305039478318695 / 9007199254740992) = ''VALIDATED''"
  "winning (claimConfidence_d exact_arith (sample_ledger 0.5 0.36 0.42)
      [sample_report ''V1'' ''Accident'' ''Accident'', sample_report ''V2'' ''Accident'' ''Accident'',
       sample_report ''V3'' ''Jam'' ''Accident'']) =
     (''Accident'', 7 / 10)"
  "verdict_of exact_arith (7 / 10) = ''UNCERTAIN''"
proof -
  show "winning (claimConfidence_d binary64_fp
      (sample_ledger (binary64 0.5) (binary64 0.36) (binary64 0.42))
      [sample_report ''V1'' ''Accident'' ''Accident'', sample_report ''V2'' ''Accident'' ''Accident'',
       sample_report ''V3'' ''Jam'' ''Accident'']) =
     (''Accident'', 6305039478318695 / 9007199254740992)"
    by (simp add: winning_def claimConfidence_d_def raw_trust_d_def raw_trust_step_d_def norm_trust_d_def
      norm_trust_step_d_def T_norm_of_d_def uniqueClaims_def sumT_supporters_d_def at_key_def
      trust_factor_d_def CalculateSuspicionScore_d_def sample_ledger_fields
      sample_report_fields Let_def less_eq_char_def
      binary64_fp_fields binary64_0 binary64_1 binary64_dyadic binary64_literals binary64_ledger)
  show "verdict_of binary64_fp (6305039478318695 / 9007199254740992) = ''VALIDATED''"
    by (simp add: verdict_of_def CONFIDENCE_THRESHOLD_TAU_def binary64_fp_fields binary64_literals)
  show "winning (claimConfidence_d exact_arith (sample_ledger 0.5 0.36 0.42)
      [sample_report ''V1'' ''Accident'' ''Accident'', sample_report ''V2'' ''Accident'' ''Accident'',
       sample_report ''V3'' ''Jam'' ''Accident'']) =
     (''Accident'', 7 / 10)"
    by (simp add: credibility_exact winning_def claimConfidence_def raw_trust_def raw_trust_step_def
      norm_trust_def norm_trust_step_def T_norm_of_def uniqueClaims_def sumT_supporters_def at_key_def
      trust_factor_def CalculateSuspicionScore_def sample_ledger_fields
      sample_report_fields Let_def less_eq_char_def)
  show "verdict_of exact_arith (7 / 10) = ''UNCERTAIN''"
    by (simp add: verdict_of_def CONFIDENCE_THRESHOLD_TAU_def exact_arith_fields)
qed

text \<open>The two confidences of that cluster are 0.7000000000000001 and 0.3 in binary64, and
  add up to \<open>1 + 2\<^sup>-\<^sup>5\<^sup>4\<close>: in doubles the sum of the confidences is 1 up to rounding.\<close>

lemma confidence_sum_in_doubles:
  "claimConfidence_d binary64_fp
      (sample_ledger (binary64 0.5) (binary64 0.36) (binary64 0.42))
      [sample_report ''V1'' ''Accident'' ''Accident'', sample_report ''V2'' ''Accident'' ''Accident'',
       sample_report ''V3'' ''Jam'' ''Accident''] =
     [(''Accident'', 6305039478318695 / 9007199254740992),
      (''Jam'', 5404319552844595 / 18014398509481984)]"
  "sum_list (map snd (claimConfidence_d binary64_fp
      (sample_ledger (binary64 0.5) (binary64 0.36) (binary64 0.42))
      [sample_report ''V1'' ''Accident'' ''Accident'', sample_report ''V2'' ''Accident'' ''Accident'',
       sample_report ''V3'' ''Jam'' ''Accident''])) = 1 + 1 / 2 ^ 54"
proof -
  show c: "claimConfidence_d binary64_fp
      (sample_ledger (binary64 0.5) (binary64 0.36) (binary64 0.42))
      [sample_report ''V1'' ''Accident'' ''Accident'', sample_report ''V2'' ''Accident'' ''Accident'',
       sample_report ''V3'' ''Jam'' ''Accident''] =
     [(''Accident'', 6305039478318695 / 9007199254740992),
      (''Jam'', 5404319552844595 / 18014398509481984)]"
    by (simp add: claimConfidence_d_def raw_trust_d_def raw_trust_step_d_def norm_trust_d_def
      norm_trust_step_d_def T_norm_of_d_def uniqueClaims_def sumT_supporters_d_def at_key_def
      trust_factor_d_def CalculateSuspicionScore_d_def sample_ledger_fields
      sample_report_fields Let_def
      binary64_fp_fields binary64_0 binary64_1 binary64_dyadic binary64_literals binary64_ledger)
  show "sum_list (map snd (claimConfidence_d binary64_fp
      (sample_ledger (binary64 0.5) (binary64 0.36) (binary64 0.42))
      [sample_report ''V1'' ''Accident'' ''Accident'', sample_report ''V2'' ''Accident'' ''Accident'',
       sample_report ''V3'' ''Jam'' ''Accident''])) = 1 + 1 / 2 ^ 54"
    unfolding c by simp
qed

section \<open>Invariants the operations keep\<close>

text \<open>The theorems above assume that histories hold only 0 and 1, that the cluster table
  has distinct keys and no empty cluster, and that a vote table names a voter once. The
  operations that write these tables keep all of that.\<close>


lemma update_one_binary:
  assumes "history_binary s"
  shows "history_binary (update_one now eid gt s r)"
proof -
  define s1 where "s1 = s\<lparr>m_vehicleReputations := (m_vehicleReputations s)(vehicleId r \<mapsto>
      newReputation_of (m_alpha s) (m_beta s)
        (case m_vehicleReputations s (vehicleId r) of Some x \<Rightarrow> x | None \<Rightarrow> 0.5)
        (reportedEventType r = gt))\<rparr>"
  have "history_binary s1"
    using assms by (simp add: history_binary_def s1_def)
  then have "history_binary (UpdateLocalHistory s1 (vehicleId r) (reportedEventType r = gt))"
    by (rule UpdateLocalHistory_binary)
  then show ?thesis
    by (simp add: update_one_def Let_def s1_def InitiateReputationUpdate_def
        ForwardTransactionToLeader_def history_binary_def)
qed

lemma UpdateReputations_binary:
  assumes "history_binary s"
  shows "history_binary (UpdateReputations now s cluster verdict gt)"
proof -
  have "history_binary (foldl (update_one now eid gt) s rs)" for eid rs
    using assms by (induction rs arbitrary: s) (simp_all add: update_one_binary)
  then show ?thesis using assms by (simp add: UpdateReputations_def)
qed

text \<open>The decision in doubles keeps both invariants of the ledger, whatever the rounding
  is: a new reputation is clamped to [0,1] after the last rounding.\<close>

lemma newReputation_of_d_bounds:
  "0 \<le> newReputation_of_d fp a b r c \<and> newReputation_of_d fp a b r c \<le> 1"
  by (simp add: newReputation_of_d_def Let_def)

lemma update_one_d_bounded:
  "reputations_bounded s \<Longrightarrow> reputations_bounded (update_one_d fp now eid gt s r)"
  using newReputation_of_d_bounds
  by (simp add: reputations_bounded_def update_one_d_def Let_def InitiateReputationUpdate_def
      ForwardTransactionToLeader_def UpdateLocalHistory_def)

lemma update_one_d_binary:
  assumes "history_binary s"
  shows "history_binary (update_one_d fp now eid gt s r)"
proof -
  define s1 where "s1 = s\<lparr>m_vehicleReputations := (m_vehicleReputations s)(vehicleId r \<mapsto>
      newReputation_of_d fp (m_alpha s) (m_beta s)
        (case m_vehicleReputations s (vehicleId r) of Some x \<Rightarrow> x | None \<Rightarrow> 0.5)
        (reportedEventType r = gt))\<rparr>"
  have "history_binary s1"
    using assms by (simp add: history_binary_def s1_def)
  then have "history_binary (UpdateLocalHistory s1 (vehicleId r) (reportedEventType r = gt))"
    by (rule UpdateLocalHistory_binary)
  then show ?thesis
    by (simp add: update_one_d_def Let_def s1_def InitiateReputationUpdate_def
        ForwardTransactionToLeader_def history_binary_def)
qed

lemma CalculateEventCredibility_keeps_invariants:
  assumes "reputations_bounded s" and "history_binary s"
  shows "reputations_bounded (CalculateEventCredibility fp env now s cluster) \<and>
         history_binary (CalculateEventCredibility fp env now s cluster)"
proof -
  have f: "reputations_bounded (foldl (update_one_d fp now eid gt) s0 rs) \<and>
           history_binary (foldl (update_one_d fp now eid gt) s0 rs)"
    if "reputations_bounded s0" and "history_binary s0" for eid gt s0 rs
    using that
    by (induction rs arbitrary: s0) (simp_all add: update_one_d_bounded update_one_d_binary)
  have i: "reputations_bounded (InitiateEventDecision now s a b c d e v x) \<and>
           history_binary (InitiateEventDecision now s a b c d e v x)" for a b c d e v x
    using assms
    by (simp add: InitiateEventDecision_def ForwardTransactionToLeader_def reputations_bounded_def
        history_binary_def)
  show ?thesis
    using assms f i
    by (simp add: CalculateEventCredibility_def UpdateReputations_d_def Let_def split: prod.split)
qed

lemma ProcessEventReport_clusters_nonempty:
  assumes "\<forall>(k, c)\<in>set (m_activeClusters s). reports c \<noteq> []"
  shows "\<forall>(k, c)\<in>set (m_activeClusters (ProcessEventReport env now s report)). reports c \<noteq> []"
proof -
  have upd: "\<forall>(k, c)\<in>set (AList.update key new cs). reports c \<noteq> []"
    if "\<forall>(k, c)\<in>set cs. reports c \<noteq> []" "reports new \<noteq> []"
    for key new and cs :: "(string \<times> EventCluster) list"
    using that by (induction cs) (auto split: if_splits)
  have ent: "\<forall>(k, c)\<in>set (AList.map_entry key (\<lambda>c. c\<lparr>reports := reports c @ [report]\<rparr>) cs). reports c \<noteq> []"
    if "\<forall>(k, c)\<in>set cs. reports c \<noteq> []"
    for key and cs :: "(string \<times> EventCluster) list"
    using that by (induction cs) (auto split: if_splits)
  show ?thesis
  proof (cases "m_nodeType s \<noteq> RSU_VALIDATOR \<or> \<not> VerifyVehicleSignature env s report")
    case True
    then have "ProcessEventReport env now s report = s"
      by (auto simp: ProcessEventReport_def)
    then show ?thesis using assms by simp
  next
    case False
    show ?thesis
    proof (cases "FindMatchingCluster s report = []")
      case True
      define new where "new = \<lparr> eventId = ''Evt_'' @ vehicleId report @ ''_'' @
                                           to_string_int (report_timestamp report),
                                 cluster_eventType = originalEventType report,
                                 centerLocation = location report,
                                 centerTime = report_timestamp report,
                                 reports = [report], creationTime = now, decisionMade = False \<rparr>"
      have "reports new \<noteq> []" by (simp add: new_def)
      from upd [OF assms this, of "eventId new"]
      have "\<forall>(k, c)\<in>set (AList.update (eventId new) new (m_activeClusters s)). reports c \<noteq> []" .
      moreover have "m_activeClusters (ProcessEventReport env now s report) =
          AList.update (eventId new) new (m_activeClusters s)"
        using False True
        by (simp add: ProcessEventReport_def Let_def ScheduleClusterCheck_clusters new_def)
      ultimately show ?thesis by simp
    next
      case nonempty: False
      have "m_activeClusters (ProcessEventReport env now s report) =
          AList.map_entry (FindMatchingCluster s report) (\<lambda>c. c\<lparr>reports := reports c @ [report]\<rparr>)
            (m_activeClusters s)"
        using False nonempty by (simp add: ProcessEventReport_def Let_def)
      with ent [OF assms] show ?thesis by simp
    qed
  qed
qed

lemma ProcessEventReport_keys_distinct:
  assumes "distinct (map fst (m_activeClusters s))"
  shows "distinct (map fst (m_activeClusters (ProcessEventReport env now s report)))"
  using assms
  by (simp add: ProcessEventReport_def Let_def ScheduleClusterCheck_clusters distinct_update
      distinct_map_entry)

lemma HandleCommit_votes_distinct:
  assumes "\<forall>h state. m_pbftActiveConsensus s h = Some state \<longrightarrow> distinct (map fst (commitVotes state))"
  shows "\<forall>h' state. m_pbftActiveConsensus (HandleCommit env s h voterId) h' = Some state \<longrightarrow>
           distinct (map fst (commitVotes state))"
proof (cases "m_pbftActiveConsensus s h")
  case None
  then show ?thesis using assms by (simp add: HandleCommit_def)
next
  case (Some state)
  have d: "distinct (map fst (commitVotes state))"
    using assms Some by blast
  show ?thesis
  proof (cases "phase state = COMMITTED \<or> map_of (commitVotes state) voterId \<noteq> None")
    case True
    then have "HandleCommit env s h voterId = s"
      using Some by (auto simp: HandleCommit_def)
    then show ?thesis using assms by simp
  next
    case False
    then have "voterId \<notin> fst ` set (commitVotes state)"
      by (simp add: map_of_eq_None_iff)
    with d have "distinct (map fst (commitVotes state @ [(voterId, ''commit_vote'')]))"
      by simp
    then show ?thesis
      using assms Some False
      by (auto simp: HandleCommit_def Let_def AddBlockToChain_fields)
  qed
qed

lemma BroadcastCommit_votes_distinct:
  assumes "\<forall>h state. m_pbftActiveConsensus s h = Some state \<longrightarrow> distinct (map fst (commitVotes state))"
  shows "\<forall>h' state. m_pbftActiveConsensus (BroadcastCommit env s h) h' = Some state \<longrightarrow>
           distinct (map fst (commitVotes state))"
  using assms
  by (auto simp: BroadcastCommit_def distinct_update split: option.splits)

end
